theory Spec2Isabelle
  imports Complex_Main "HOL-Library.Sublist"
begin

section \<open>Python string operations used by the scraper\<close>

text \<open>
  Strings are character lists. \<open>py_in sub s\<close> is Python's \<^verbatim>\<open>sub in s\<close>,
  \<open>py_split sep s\<close> is \<^verbatim>\<open>s.split(sep)\<close> for a non-empty separator (the source
  only splits at the literals \<^verbatim>\<open>'/status/'\<close>, \<^verbatim>\<open>'?'\<close> and \<^verbatim>\<open>'/'\<close>): the
  text is scanned from the left and occurrences of the separator do not overlap.
\<close>

fun py_in :: "string \<Rightarrow> string \<Rightarrow> bool" where
  "py_in sub [] = (sub = [])"
| "py_in sub (c # cs) = (prefix sub (c # cs) \<or> py_in sub cs)"

function py_split_from :: "string \<Rightarrow> string \<Rightarrow> string \<Rightarrow> string list" where
  "py_split_from sep cur [] = [cur]"
| "py_split_from sep cur (c # cs) =
     (if sep \<noteq> [] \<and> prefix sep (c # cs)
      then cur # py_split_from sep [] (drop (length sep) (c # cs))
      else py_split_from sep (cur @ [c]) cs)"
  by pat_completeness auto
termination
  by (relation "measure (\<lambda>(sep, cur, s). length s)") auto

definition py_split :: "string \<Rightarrow> string \<Rightarrow> string list" where
  "py_split sep s = py_split_from sep [] s"

text \<open>\<^verbatim>\<open>parts.index(x)\<close>: the position of the first occurrence, ValueError when there is none.\<close>

fun py_index :: "string list \<Rightarrow> string \<Rightarrow> nat option" where
  "py_index [] x = None"
| "py_index (p # ps) x = (if p = x then Some 0 else map_option Suc (py_index ps x))"

text \<open>\<^verbatim>\<open>parts[i]\<close> for a non-negative index: IndexError past the end.\<close>

definition py_get :: "string list \<Rightarrow> nat \<Rightarrow> string option" where
  "py_get ps i = (if i < length ps then Some (ps ! i) else None)"

section \<open>Extraction of the identifier and the author from a permalink\<close>

definition extract_tweet_id_from_url :: "string \<Rightarrow> string option" where
  "extract_tweet_id_from_url url =
     (if py_in ''/status/'' url
      then Some (hd (py_split ''/'' (hd (py_split ''?'' (last (py_split ''/status/'' url))))))
      else None)"

text \<open>
  In \<open>extract_author_from_url\<close> the ValueError of \<^verbatim>\<open>parts.index('twitter.com')\<close> and the
  IndexError of \<^verbatim>\<open>parts[username_index]\<close> are caught by the method's own handler, which
  returns None.
\<close>

definition extract_author_from_url :: "string \<Rightarrow> string option" where
  "extract_author_from_url url =
     (if py_in ''/status/'' url
      then (let parts = py_split ''/'' url in
            case (if ''x.com'' \<in> set parts then py_index parts ''x.com''
                  else py_index parts ''twitter.com'') of
              None \<Rightarrow> None
            | Some i \<Rightarrow> py_get parts (i + 1))
      else None)"

text \<open>
  The author as the specification words it, for comparison with the code: the path
  segment that stands immediately before the \<^verbatim>\<open>/status/\<close> marker.
\<close>

definition segment_before_status :: "string \<Rightarrow> string" where
  "segment_before_status url = last (py_split ''/'' (hd (py_split ''/status/'' url)))"

section \<open>The collection loop\<close>

text \<open>
  The browser is a collaborator. A rendered post element is what the loop reads of it:
  the result of looking up its permalink anchor and reading the \<^verbatim>\<open>href\<close> (an exception,
  no anchor, or the reference), and the result of \<^verbatim>\<open>inner_text()\<close> (an exception or the
  text). Every exception raised while one element is processed is caught by the loop
  body's handler. Delays and scroll distances are random and change only what the browser
  renders next, so the page is an arbitrary sequence of renderings: \<open>page k\<close> is the list
  of elements found by the query of cycle \<open>k\<close>. Queries of the page itself are taken to
  succeed. Log output of the loop is not part of the model.
\<close>

datatype exn = Exception string | ValueError string

record element =
  link :: "exn + string option"
  inner_text :: "exn + string"

record tweet_data =
  tw_tweet_id :: string
  tw_content :: string
  tw_author :: "string option"
  tw_url :: string

definition max_scroll_attempts :: nat where
  "max_scroll_attempts = 20"

text \<open>The body of the \<^verbatim>\<open>for\<close> loop after the length test: one element.\<close>

fun process_element ::
  "element \<Rightarrow> tweet_data list \<times> string set \<Rightarrow> tweet_data list \<times> string set" where
  "process_element tweet_element (tweets_data, processed_tweet_ids) =
     (case link tweet_element of
        Inl e \<Rightarrow> (tweets_data, processed_tweet_ids)
      | Inr None \<Rightarrow> (tweets_data, processed_tweet_ids)
      | Inr (Some href) \<Rightarrow>
          (let tweet_url = (if prefix ''http'' href then href else ''https://x.com'' @ href) in
           case extract_tweet_id_from_url tweet_url of
             None \<Rightarrow> (tweets_data, processed_tweet_ids)
           | Some tweet_id \<Rightarrow>
               if tweet_id = [] then (tweets_data, processed_tweet_ids)
               else if tweet_id \<in> processed_tweet_ids then (tweets_data, processed_tweet_ids)
               else (case inner_text tweet_element of
                       Inl e \<Rightarrow> (tweets_data, insert tweet_id processed_tweet_ids)
                     | Inr tweet_content \<Rightarrow>
                         (tweets_data @
                            [\<lparr>tw_tweet_id = tweet_id, tw_content = tweet_content,
                              tw_author = extract_author_from_url tweet_url,
                              tw_url = tweet_url\<rparr>],
                          insert tweet_id processed_tweet_ids))))"

text \<open>The \<^verbatim>\<open>for\<close> loop over the elements of one rendering, with its \<^verbatim>\<open>break\<close>.\<close>

fun for_elements ::
  "int \<Rightarrow> element list \<Rightarrow> tweet_data list \<times> string set \<Rightarrow> tweet_data list \<times> string set" where
  "for_elements max_tweets [] st = st"
| "for_elements max_tweets (tweet_element # rest) st =
     (if int (length (fst st)) \<ge> max_tweets then st
      else for_elements max_tweets rest (process_element tweet_element st))"

text \<open>
  The \<^verbatim>\<open>while\<close> loop on the state (tweets_data, processed_tweet_ids, scroll_attempts).
  A cycle that ends with the list still short scrolls and counts the attempt; otherwise
  it goes back to the loop test unchanged.
\<close>

function collect_loop ::
  "(nat \<Rightarrow> element list) \<Rightarrow> int \<Rightarrow> tweet_data list \<times> string set \<times> nat
     \<Rightarrow> tweet_data list \<times> string set \<times> nat" where
  "collect_loop page max_tweets (tweets_data, processed_tweet_ids, scroll_attempts) =
     (if int (length tweets_data) < max_tweets \<and> scroll_attempts < max_scroll_attempts
      then (case for_elements max_tweets (page scroll_attempts) (tweets_data, processed_tweet_ids) of
              (tweets_data', processed') \<Rightarrow>
                if int (length tweets_data') < max_tweets
                then collect_loop page max_tweets (tweets_data', processed', scroll_attempts + 1)
                else collect_loop page max_tweets (tweets_data', processed', scroll_attempts))
      else (tweets_data, processed_tweet_ids, scroll_attempts))"
  by pat_completeness auto
termination
  by (relation "measure (\<lambda>(page, max_tweets, tweets_data, processed, scroll_attempts).
        (max_scroll_attempts - scroll_attempts)
        + (if int (length tweets_data) < max_tweets then 1 else 0))")
     (auto simp: max_scroll_attempts_def)

text \<open>
  \<open>collect_tweets\<close> takes the page as an option: None is a scraper whose browser was
  never set up. \<open>scroll_cycles\<close> reads the final value of the local counter.
\<close>

definition collect_tweets :: "(nat \<Rightarrow> element list) option \<Rightarrow> int \<Rightarrow> exn + tweet_data list" where
  "collect_tweets page max_tweets =
     (case page of
        None \<Rightarrow> Inl (Exception ''Browser not initialized'')
      | Some p \<Rightarrow> Inr (fst (collect_loop p max_tweets ([], {}, 0))))"

definition scroll_cycles :: "(nat \<Rightarrow> element list) \<Rightarrow> int \<Rightarrow> nat" where
  "scroll_cycles p max_tweets = snd (snd (collect_loop p max_tweets ([], {}, 0)))"

text \<open>
  The invariant of the in-session dedupe: the identifiers collected so far are pairwise
  distinct and all in the set of processed identifiers.
\<close>

definition ids_fresh :: "tweet_data list \<times> string set \<Rightarrow> bool" where
  "ids_fresh st =
     (distinct (map tw_tweet_id (fst st)) \<and> set (map tw_tweet_id (fst st)) \<subseteq> snd st)"

text \<open>An element whose anchor and text are read without an exception, for examples.\<close>

definition rendered_post :: "string \<Rightarrow> string \<Rightarrow> element" where
  "rendered_post href txt = \<lparr>link = Inr (Some href), inner_text = Inr txt\<rparr>"

section \<open>The store and the persistence gateway\<close>

text \<open>
  Modelled from the spec: the durable store client is a collaborator whose code is not
  part of the repository. The table \<^verbatim>\<open>timeline_tweets\<close> is a list of rows with a
  uniqueness constraint on the identifier column; a select returns the rows whose
  identifier matches; an insert adds the row or fails with a constraint violation. Whether
  a request reaches the database at all is decided outside the program: the next entry of
  \<open>select_faults\<close> (of \<open>insert_faults\<close>) is the exception message of the next select
  (insert), or None when that request gets through; an exhausted list means no further
  fault. \<open>requests\<close> records every request sent, \<open>logged\<close> what the gateway logs.
\<close>

record row =
  row_tweet_id :: string
  row_content :: string
  row_author :: "string option"
  row_tweet_url :: string

datatype request = Select string | Insert row

datatype level = INFO | WARNING | ERROR

datatype log_entry =
    Error_checking_duplicate string string
  | Skipping_duplicate string
  | Saved_new_tweet string "string option"
  | Already_exists string
  | Error_saving_tweet string string
  | Error_during_scraping exn

fun level_of :: "log_entry \<Rightarrow> level" where
  "level_of (Error_checking_duplicate tweet_id e) = ERROR"
| "level_of (Skipping_duplicate tweet_id) = INFO"
| "level_of (Saved_new_tweet tweet_id author) = INFO"
| "level_of (Already_exists tweet_id) = WARNING"
| "level_of (Error_saving_tweet tweet_id e) = ERROR"
| "level_of (Error_during_scraping e) = ERROR"

record world =
  timeline_tweets :: "row list"
  select_faults :: "string option list"
  insert_faults :: "string option list"
  requests :: "request list"
  logged :: "log_entry list"

definition unique_violation :: string where
  "unique_violation = ''duplicate key value violates unique constraint''"

definition table_select_eq :: "string \<Rightarrow> world \<Rightarrow> (string + row list) \<times> world" where
  "table_select_eq tweet_id w =
     (let w1 = w\<lparr>requests := requests w @ [Select tweet_id],
                  select_faults := tl (select_faults w)\<rparr> in
      case select_faults w of
        Some e # fs \<Rightarrow> (Inl e, w1)
      | _ \<Rightarrow> (Inr (filter (\<lambda>r. row_tweet_id r = tweet_id) (timeline_tweets w)), w1))"

definition table_insert :: "row \<Rightarrow> world \<Rightarrow> (string + unit) \<times> world" where
  "table_insert data w =
     (let w1 = w\<lparr>requests := requests w @ [Insert data],
                  insert_faults := tl (insert_faults w)\<rparr> in
      case insert_faults w of
        Some e # fs \<Rightarrow> (Inl e, w1)
      | _ \<Rightarrow>
          if row_tweet_id data \<in> row_tweet_id ` set (timeline_tweets w)
          then (Inl unique_violation, w1)
          else (Inr (), w1\<lparr>timeline_tweets := timeline_tweets w @ [data]\<rparr>))"

text \<open>\<^verbatim>\<open>str.lower()\<close> on the ASCII letters.\<close>

definition py_lower :: "string \<Rightarrow> string" where
  "py_lower s =
     map (\<lambda>c. case map_of (zip ''ABCDEFGHIJKLMNOPQRSTUVWXYZ'' ''abcdefghijklmnopqrstuvwxyz'') c of
                 None \<Rightarrow> c | Some d \<Rightarrow> d) s"

definition log_line :: "log_entry \<Rightarrow> world \<Rightarrow> world" where
  "log_line l w = w\<lparr>logged := logged w @ [l]\<rparr>"

definition is_duplicate :: "string \<Rightarrow> world \<Rightarrow> bool \<times> world" where
  "is_duplicate tweet_id w =
     (case table_select_eq tweet_id w of
        (Inr response_data, w1) \<Rightarrow> (length response_data > 0, w1)
      | (Inl e, w1) \<Rightarrow> (False, log_line (Error_checking_duplicate tweet_id e) w1))"

definition save_tweet ::
  "string \<Rightarrow> string \<Rightarrow> string option \<Rightarrow> string \<Rightarrow> world \<Rightarrow> bool \<times> world" where
  "save_tweet tweet_id content author tweet_url w =
     (case is_duplicate tweet_id w of
        (True, w1) \<Rightarrow> (False, log_line (Skipping_duplicate tweet_id) w1)
      | (False, w1) \<Rightarrow>
          (case table_insert \<lparr>row_tweet_id = tweet_id, row_content = content,
                               row_author = author, row_tweet_url = tweet_url\<rparr> w1 of
             (Inr u, w2) \<Rightarrow> (True, log_line (Saved_new_tweet tweet_id author) w2)
           | (Inl e, w2) \<Rightarrow>
               if py_in ''duplicate'' (py_lower e) \<or> py_in ''unique'' (py_lower e)
               then (False, log_line (Already_exists tweet_id) w2)
               else (False, log_line (Error_saving_tweet tweet_id e) w2)))"

text \<open>
  Words for the statements about the gateway: the stored identifiers, the rows of one
  identifier, and whether the next select (insert) request gets through.
\<close>

definition stored_ids :: "world \<Rightarrow> string set" where
  "stored_ids w = row_tweet_id ` set (timeline_tweets w)"

definition rows_with :: "string \<Rightarrow> world \<Rightarrow> row list" where
  "rows_with tweet_id w = filter (\<lambda>r. row_tweet_id r = tweet_id) (timeline_tweets w)"

fun gets_through :: "string option list \<Rightarrow> bool" where
  "gets_through (Some e # fs) = False"
| "gets_through fs = True"

text \<open>A store with no rows and no fault to come, nothing sent and nothing logged.\<close>

definition initial_world :: world where
  "initial_world = \<lparr>timeline_tweets = [], select_faults = [], insert_faults = [],
                     requests = [], logged = []\<rparr>"

section \<open>The run orchestrator\<close>

record RunResult =
  total_collected :: nat
  saved :: nat
  skipped_duplicates :: nat
  tweets :: "tweet_data list"

text \<open>The loop that saves the collected records, on the two counters.\<close>

fun save_all :: "tweet_data list \<Rightarrow> nat \<times> nat \<Rightarrow> world \<Rightarrow> (nat \<times> nat) \<times> world" where
  "save_all [] counts w = (counts, w)"
| "save_all (tweet # rest) (saved_count, skipped_count) w =
     (case save_tweet (tw_tweet_id tweet) (tw_content tweet) (tw_author tweet) (tw_url tweet) w of
        (True, w1) \<Rightarrow> save_all rest (saved_count + 1, skipped_count) w1
      | (False, w1) \<Rightarrow> save_all rest (saved_count, skipped_count + 1) w1)"

text \<open>
  \<open>setup\<close> is the outcome of \<^verbatim>\<open>setup_browser\<close>: an exception, or the page it opened. An
  exception of the scrape phase is logged and raised again.
\<close>

definition scrape_and_save ::
  "exn + (nat \<Rightarrow> element list) \<Rightarrow> int \<Rightarrow> world \<Rightarrow> (exn + RunResult) \<times> world" where
  "scrape_and_save setup max_tweets w =
     (case setup of
        Inl e \<Rightarrow> (Inl e, log_line (Error_during_scraping e) w)
      | Inr page \<Rightarrow>
          (case collect_tweets (Some page) max_tweets of
             Inl e \<Rightarrow> (Inl e, log_line (Error_during_scraping e) w)
           | Inr collected \<Rightarrow>
               (case save_all collected (0, 0) w of
                  ((saved_count, skipped_count), w1) \<Rightarrow>
                    (Inr \<lparr>total_collected = length collected, saved = saved_count,
                          skipped_duplicates = skipped_count, tweets = collected\<rparr>, w1))))"

text \<open>
  The row that \<open>save_all\<close> hands to the gateway for a collected record, and the rows of
  the insert requests in a request trace.
\<close>

definition row_of :: "tweet_data \<Rightarrow> row" where
  "row_of tweet = \<lparr>row_tweet_id = tw_tweet_id tweet, row_content = tw_content tweet,
                   row_author = tw_author tweet, row_tweet_url = tw_url tweet\<rparr>"

fun inserts_of :: "request list \<Rightarrow> row list" where
  "inserts_of [] = []"
| "inserts_of (Insert r # rs) = r # inserts_of rs"
| "inserts_of (Select i # rs) = inserts_of rs"

text \<open>The first \<open>n\<close> existence checks to come all fail.\<close>

definition exists_checks_fail :: "nat \<Rightarrow> world \<Rightarrow> bool" where
  "exists_checks_fail n w =
     (n \<le> length (select_faults w) \<and> list_all (\<lambda>f. f \<noteq> None) (take n (select_faults w)))"

section \<open>The scheduler\<close>

record ScraperScheduler =
  base_interval :: int
  max_tweets_per_run :: int
  run_count :: nat

definition init_scheduler :: "int \<Rightarrow> int \<Rightarrow> ScraperScheduler" where
  "init_scheduler base_interval_minutes max_tweets =
     \<lparr>base_interval = base_interval_minutes * 60, max_tweets_per_run = max_tweets, run_count = 0\<rparr>"

text \<open>
  \<open>run_once\<close> counts the run first; \<open>ok\<close> tells whether the run that follows ended without
  an exception, which is all the scheduler sees of it.
\<close>

definition run_once :: "bool \<Rightarrow> ScraperScheduler \<Rightarrow> bool \<times> ScraperScheduler" where
  "run_once ok self = (ok, self\<lparr>run_count := run_count self + 1\<rparr>)"

text \<open>Python's truth value of \<^verbatim>\<open>max_runs\<close>: None and 0 are false.\<close>

fun truthy :: "int option \<Rightarrow> bool" where
  "truthy None = False"
| "truthy (Some n) = (n \<noteq> 0)"

datatype stop = Completed | Interrupted | Raised exn

text \<open>
  The main loop runs until its own test stops it, the user interrupts it, or an exception
  other than the interrupt leaves it: the handler of \<open>start\<close> catches the interrupt only.
  The first argument of \<open>start\<close> counts the loop passes before the interrupt arrives;
  \<open>outcome k\<close> tells whether the run started with \<open>run_count = k\<close> succeeds. After the run
  the loop draws the interval, computes the time of the next run and sleeps. The interval
  is a random floating-point number, and the date arithmetic and the sleep fail on values
  outside the platform's range, so what that step does is given from outside: \<open>timing k\<close>
  is the exception that the step raises after that run, or the finite interval it goes on
  to sleep for, on which no arithmetic is done here. \<^verbatim>\<open>time.sleep\<close> raises ValueError for
  a negative interval.
\<close>

fun start ::
  "nat \<Rightarrow> int option \<Rightarrow> (nat \<Rightarrow> bool) \<Rightarrow> (nat \<Rightarrow> exn + real) \<Rightarrow> ScraperScheduler
     \<Rightarrow> stop \<times> ScraperScheduler" where
  "start 0 max_runs outcome timing self = (Interrupted, self)"
| "start (Suc passes) max_runs outcome timing self =
     (if truthy max_runs \<and> int (run_count self) \<ge> the max_runs then (Completed, self)
      else (case timing (run_count self) of
              Inl e \<Rightarrow> (Raised e, snd (run_once (outcome (run_count self)) self))
            | Inr interval \<Rightarrow>
                if interval < 0
                then (Raised (ValueError ''sleep length must be non-negative''),
                      snd (run_once (outcome (run_count self)) self))
                else start passes max_runs outcome timing
                       (snd (run_once (outcome (run_count self)) self))))"

text \<open>Every scheduling step draws an interval that is not negative and raises nothing.\<close>

definition timing_fine :: "(nat \<Rightarrow> exn + real) \<Rightarrow> bool" where
  "timing_fine timing = (\<forall>k. \<exists>v. timing k = Inr v \<and> 0 \<le> v)"

section \<open>Properties of the extraction\<close>

lemma py_in_prefix: "prefix sub s \<Longrightarrow> py_in sub s"
  by (cases s) auto

lemma py_in_append: "py_in sub (a @ sub @ b)"
  by (induction a) (auto simp: py_in_prefix)

lemma split_char_step:
  "c \<notin> set a \<Longrightarrow> py_split_from [c] cur (a @ c # rest) = (cur @ a) # py_split_from [c] [] rest"
  by (induction a arbitrary: cur) auto

lemma py_index_None: "x \<notin> set ps \<Longrightarrow> py_index ps x = None"
  by (induction ps) auto

text \<open>The segments of a permalink of the usual shape.\<close>

lemma parts_of_permalink:
  assumes s: "CHR ''/'' \<notin> set scheme" and h: "CHR ''/'' \<notin> set host"
    and a: "CHR ''/'' \<notin> set handle"
  shows "py_split ''/'' (scheme @ ''//'' @ host @ ''/'' @ handle @ ''/status/'' @ rest)
         = scheme # [] # host # handle # ''status'' # py_split ''/'' rest"
proof -
  let ?sl = "CHR ''/''"
  have e: "?sl \<notin> set []" and st: "?sl \<notin> set ''status''" by simp_all
  have "py_split ''/'' (scheme @ ''//'' @ host @ ''/'' @ handle @ ''/status/'' @ rest)
      = py_split_from [?sl] [] (scheme @ ?sl # ([] @ ?sl # (host @ ?sl #
          (handle @ ?sl # (''status'' @ ?sl # rest)))))"
    by (simp add: py_split_def)
  also have "\<dots> = scheme # py_split_from [?sl] [] ([] @ ?sl # (host @ ?sl #
          (handle @ ?sl # (''status'' @ ?sl # rest))))"
    using split_char_step[OF s, of "[]"] by simp
  also have "\<dots> = scheme # [] # py_split_from [?sl] [] (host @ ?sl #
          (handle @ ?sl # (''status'' @ ?sl # rest)))"
    using split_char_step[OF e, of "[]"] by simp
  also have "\<dots> = scheme # [] # host # py_split_from [?sl] []
          (handle @ ?sl # (''status'' @ ?sl # rest))"
    using split_char_step[OF h, of "[]"] by simp
  also have "\<dots> = scheme # [] # host # handle # py_split_from [?sl] [] (''status'' @ ?sl # rest)"
    using split_char_step[OF a, of "[]"] by simp
  also have "\<dots> = scheme # [] # host # handle # ''status'' # py_split_from [?sl] [] rest"
    using split_char_step[OF st, of "[]" rest] by simp
  finally show ?thesis by (simp add: py_split_def)
qed

lemma status_in_permalink:
  "py_in ''/status/'' (scheme @ ''//'' @ host @ ''/'' @ handle @ ''/status/'' @ rest)"
  using py_in_append[of "''/status/''" "scheme @ ''//'' @ host @ ''/'' @ handle" rest] by simp

lemma author_after_x_com:
  assumes "CHR ''/'' \<notin> set scheme" "CHR ''/'' \<notin> set handle" "scheme \<noteq> ''x.com''"
  shows "extract_author_from_url (scheme @ ''//x.com/'' @ handle @ ''/status/'' @ rest) = Some handle"
proof -
  have "CHR ''/'' \<notin> set ''x.com''" by simp
  from parts_of_permalink[OF assms(1) this assms(2), of rest]
  have p: "py_split ''/'' (scheme @ ''//x.com/'' @ handle @ ''/status/'' @ rest)
         = scheme # [] # ''x.com'' # handle # ''status'' # py_split ''/'' rest" by simp
  have i: "py_in ''/status/'' (scheme @ ''//x.com/'' @ handle @ ''/status/'' @ rest)"
    using status_in_permalink[of scheme "''x.com''" handle rest] by simp
  show ?thesis
    unfolding extract_author_from_url_def using assms(3)
    by (simp only: i p if_True Let_def) (simp add: py_get_def)
qed

lemma author_after_twitter_com:
  assumes "CHR ''/'' \<notin> set scheme" "CHR ''/'' \<notin> set handle"
    and "scheme \<noteq> ''twitter.com''" "scheme \<noteq> ''x.com''" "handle \<noteq> ''x.com''"
    and "''x.com'' \<notin> set (py_split ''/'' rest)"
  shows "extract_author_from_url (scheme @ ''//twitter.com/'' @ handle @ ''/status/'' @ rest)
         = Some handle"
proof -
  have "CHR ''/'' \<notin> set ''twitter.com''" by simp
  from parts_of_permalink[OF assms(1) this assms(2), of rest]
  have p: "py_split ''/'' (scheme @ ''//twitter.com/'' @ handle @ ''/status/'' @ rest)
         = scheme # [] # ''twitter.com'' # handle # ''status'' # py_split ''/'' rest" by simp
  have i: "py_in ''/status/'' (scheme @ ''//twitter.com/'' @ handle @ ''/status/'' @ rest)"
    using status_in_permalink[of scheme "''twitter.com''" handle rest] by simp
  show ?thesis
    unfolding extract_author_from_url_def using assms(3-6)
    by (simp only: i p if_True Let_def) (auto simp add: py_get_def)
qed

lemma author_none_without_host:
  assumes "''x.com'' \<notin> set (py_split ''/'' u)" "''twitter.com'' \<notin> set (py_split ''/'' u)"
  shows "extract_author_from_url u = None"
  using assms by (simp add: extract_author_from_url_def py_index_None)

lemma id_found_with_marker:
  "py_in ''/status/'' u \<Longrightarrow> \<exists>i. extract_tweet_id_from_url u = Some i"
  by (simp add: extract_tweet_id_from_url_def)

lemma no_marker_no_id: "\<not> py_in ''/status/'' u \<Longrightarrow> extract_tweet_id_from_url u = None"
  by (simp add: extract_tweet_id_from_url_def)

lemma no_marker_no_author: "\<not> py_in ''/status/'' u \<Longrightarrow> extract_author_from_url u = None"
  by (simp add: extract_author_from_url_def)

lemma py_index_first: "x \<notin> set pre \<Longrightarrow> py_index (pre @ x # post) x = Some (length pre)"
  by (induction pre) auto

lemma author_after_first_x_com:
  assumes "py_in ''/status/'' u" "py_split ''/'' u = pre @ ''x.com'' # post" "''x.com'' \<notin> set pre"
  shows "extract_author_from_url u = (case post of [] \<Rightarrow> None | seg # others \<Rightarrow> Some seg)"
  using assms py_index_first[OF assms(3), of post]
  by (cases post) (simp_all add: extract_author_from_url_def py_get_def nth_append)

lemma author_after_first_twitter_com:
  assumes "py_in ''/status/'' u" "''x.com'' \<notin> set (py_split ''/'' u)"
    "py_split ''/'' u = pre @ ''twitter.com'' # post" "''twitter.com'' \<notin> set pre"
  shows "extract_author_from_url u = (case post of [] \<Rightarrow> None | seg # others \<Rightarrow> Some seg)"
  using assms(1,2) py_index_first[OF assms(4), of post]
  unfolding extract_author_from_url_def assms(3)
  by (cases post) (simp_all add: py_get_def nth_append)

text \<open>
  C5, as the code has it. For every URL with the marker, the author is the segment that
  follows the first segment equal to \<^verbatim>\<open>x.com\<close>, or, when no segment is \<^verbatim>\<open>x.com\<close>, the one
  that follows the first segment equal to \<^verbatim>\<open>twitter.com\<close>; it is None when nothing follows
  that host segment, and when no segment is one of the two host names. For a permalink
  \<^verbatim>\<open>scheme//host/handle/status/...\<close> the segment after the host is the handle, which there
  is also the segment before the marker. An element whose permalink gives no author is
  still collected, with its text and identifier, when the identifier is not empty and was
  not seen before.
\<close>

theorem author_is_segment_after_host:
  "(py_in ''/status/'' u \<and> py_split ''/'' u = pre @ ''x.com'' # post \<and> ''x.com'' \<notin> set pre \<longrightarrow>
      extract_author_from_url u = (case post of [] \<Rightarrow> None | seg # others \<Rightarrow> Some seg))
   \<and> (py_in ''/status/'' u \<and> ''x.com'' \<notin> set (py_split ''/'' u)
        \<and> py_split ''/'' u = pre @ ''twitter.com'' # post \<and> ''twitter.com'' \<notin> set pre \<longrightarrow>
      extract_author_from_url u = (case post of [] \<Rightarrow> None | seg # others \<Rightarrow> Some seg))
   \<and> (''x.com'' \<notin> set (py_split ''/'' u) \<and> ''twitter.com'' \<notin> set (py_split ''/'' u) \<longrightarrow>
      extract_author_from_url u = None)
   \<and> (CHR ''/'' \<notin> set scheme \<and> CHR ''/'' \<notin> set handle \<and> scheme \<noteq> ''x.com'' \<longrightarrow>
      extract_author_from_url (scheme @ ''//x.com/'' @ handle @ ''/status/'' @ rest) = Some handle)
   \<and> (CHR ''/'' \<notin> set scheme \<and> CHR ''/'' \<notin> set handle \<and> scheme \<noteq> ''twitter.com''
        \<and> scheme \<noteq> ''x.com'' \<and> handle \<noteq> ''x.com'' \<and> ''x.com'' \<notin> set (py_split ''/'' rest) \<longrightarrow>
      extract_author_from_url (scheme @ ''//twitter.com/'' @ handle @ ''/status/'' @ rest)
        = Some handle)
   \<and> (prefix ''http'' u \<and> extract_tweet_id_from_url u = Some i \<and> i \<noteq> [] \<and> i \<notin> seen
        \<and> extract_author_from_url u = None \<longrightarrow>
      process_element \<lparr>link = Inr (Some u), inner_text = Inr txt\<rparr> (tweets_data, seen)
        = (tweets_data @ [\<lparr>tw_tweet_id = i, tw_content = txt, tw_author = None, tw_url = u\<rparr>],
           insert i seen))"
proof (intro conjI impI)
  assume "py_in ''/status/'' u \<and> py_split ''/'' u = pre @ ''x.com'' # post \<and> ''x.com'' \<notin> set pre"
  then show "extract_author_from_url u = (case post of [] \<Rightarrow> None | seg # others \<Rightarrow> Some seg)"
    using author_after_first_x_com[of u pre post] by blast
next
  assume "py_in ''/status/'' u \<and> ''x.com'' \<notin> set (py_split ''/'' u)
        \<and> py_split ''/'' u = pre @ ''twitter.com'' # post \<and> ''twitter.com'' \<notin> set pre"
  then show "extract_author_from_url u = (case post of [] \<Rightarrow> None | seg # others \<Rightarrow> Some seg)"
    using author_after_first_twitter_com[of u pre post] by blast
next
  assume "''x.com'' \<notin> set (py_split ''/'' u) \<and> ''twitter.com'' \<notin> set (py_split ''/'' u)"
  then show "extract_author_from_url u = None"
    by (simp add: author_none_without_host)
next
  assume "CHR ''/'' \<notin> set scheme \<and> CHR ''/'' \<notin> set handle \<and> scheme \<noteq> ''x.com''"
  then show "extract_author_from_url (scheme @ ''//x.com/'' @ handle @ ''/status/'' @ rest)
             = Some handle"
    using author_after_x_com[of scheme handle rest] by blast
next
  assume "CHR ''/'' \<notin> set scheme \<and> CHR ''/'' \<notin> set handle \<and> scheme \<noteq> ''twitter.com''
        \<and> scheme \<noteq> ''x.com'' \<and> handle \<noteq> ''x.com'' \<and> ''x.com'' \<notin> set (py_split ''/'' rest)"
  then show "extract_author_from_url (scheme @ ''//twitter.com/'' @ handle @ ''/status/'' @ rest)
             = Some handle"
    using author_after_twitter_com[of scheme handle rest] by blast
next
  assume "prefix ''http'' u \<and> extract_tweet_id_from_url u = Some i \<and> i \<noteq> [] \<and> i \<notin> seen
        \<and> extract_author_from_url u = None"
  then show "process_element \<lparr>link = Inr (Some u), inner_text = Inr txt\<rparr> (tweets_data, seen)
        = (tweets_data @ [\<lparr>tw_tweet_id = i, tw_content = txt, tw_author = None, tw_url = u\<rparr>],
           insert i seen)"
    by simp
qed

text \<open>
  The witness takes a URL without scheme, whose host is the first segment, a legacy URL
  with a port-less host in third place, a URL that ends with the host, a URL of another
  host, and the two permalinks of the usual shape.
\<close>

theorem author_is_segment_after_host_witness:
  "py_in ''/status/'' ''x.com/carol/status/9''
   \<and> py_split ''/'' ''x.com/carol/status/9'' = [] @ ''x.com'' # [''carol'', ''status'', ''9'']
   \<and> ''x.com'' \<notin> set ([] :: string list)
   \<and> extract_author_from_url ''x.com/carol/status/9'' = Some ''carol''
   \<and> py_in ''/status/'' ''http://twitter.com/dave/status/4''
   \<and> ''x.com'' \<notin> set (py_split ''/'' ''http://twitter.com/dave/status/4'')
   \<and> py_split ''/'' ''http://twitter.com/dave/status/4''
       = [''http:'', []] @ ''twitter.com'' # [''dave'', ''status'', ''4'']
   \<and> ''twitter.com'' \<notin> set [''http:'', []]
   \<and> extract_author_from_url ''http://twitter.com/dave/status/4'' = Some ''dave''
   \<and> py_in ''/status/'' ''/status/5/x.com''
   \<and> py_split ''/'' ''/status/5/x.com'' = [[], ''status'', ''5''] @ ''x.com'' # []
   \<and> ''x.com'' \<notin> set [[], ''status'', ''5'']
   \<and> extract_author_from_url ''/status/5/x.com'' = None
   \<and> CHR ''/'' \<notin> set ''https:'' \<and> CHR ''/'' \<notin> set ''alice'' \<and> ''https:'' \<noteq> ''x.com''
   \<and> ''https:'' \<noteq> ''twitter.com'' \<and> ''alice'' \<noteq> ''x.com''
   \<and> ''x.com'' \<notin> set (py_split ''/'' ''12345?foo=bar'')
   \<and> extract_author_from_url ''https://x.com/alice/status/12345?foo=bar'' = Some ''alice''
   \<and> extract_author_from_url ''https://twitter.com/alice/status/12345?foo=bar'' = Some ''alice''
   \<and> ''x.com'' \<notin> set (py_split ''/'' ''https://mobile.twitter.com/bob/status/7'')
   \<and> ''twitter.com'' \<notin> set (py_split ''/'' ''https://mobile.twitter.com/bob/status/7'')
   \<and> prefix ''http'' ''https://mobile.twitter.com/bob/status/7''
   \<and> extract_tweet_id_from_url ''https://mobile.twitter.com/bob/status/7'' = Some ''7''
   \<and> extract_author_from_url ''https://mobile.twitter.com/bob/status/7'' = None
   \<and> process_element
        \<lparr>link = Inr (Some ''https://mobile.twitter.com/bob/status/7''), inner_text = Inr ''hello''\<rparr>
        ([], {})
      = ([\<lparr>tw_tweet_id = ''7'', tw_content = ''hello'', tw_author = None,
           tw_url = ''https://mobile.twitter.com/bob/status/7''\<rparr>], {''7''})"
proof -
  let ?u = "''https://mobile.twitter.com/bob/status/7''"
  have g1: "py_in ''/status/'' ''x.com/carol/status/9''"
    "py_split ''/'' ''x.com/carol/status/9'' = [] @ ''x.com'' # [''carol'', ''status'', ''9'']"
    "''x.com'' \<notin> set ([] :: string list)"
    by (simp_all add: py_split_def)
  have g2: "py_in ''/status/'' ''http://twitter.com/dave/status/4''"
    "''x.com'' \<notin> set (py_split ''/'' ''http://twitter.com/dave/status/4'')"
    "py_split ''/'' ''http://twitter.com/dave/status/4''
       = [''http:'', []] @ ''twitter.com'' # [''dave'', ''status'', ''4'']"
    "''twitter.com'' \<notin> set [''http:'', []]"
    by (simp_all add: py_split_def)
  have g3: "py_in ''/status/'' ''/status/5/x.com''"
    "py_split ''/'' ''/status/5/x.com'' = [[], ''status'', ''5''] @ ''x.com'' # []"
    "''x.com'' \<notin> set [[], ''status'', ''5'']"
    by (simp_all add: py_split_def)
  have h1: "CHR ''/'' \<notin> set ''https:''" "CHR ''/'' \<notin> set ''alice''" "''https:'' \<noteq> ''x.com''"
    "''https:'' \<noteq> ''twitter.com''" "''alice'' \<noteq> ''x.com''"
    by simp_all
  have h2: "''x.com'' \<notin> set (py_split ''/'' ''12345?foo=bar'')"
    by (simp add: py_split_def)
  have h4: "''x.com'' \<notin> set (py_split ''/'' ?u)" "''twitter.com'' \<notin> set (py_split ''/'' ?u)"
    by (simp_all add: py_split_def)
  have h5: "prefix ''http'' ?u" by simp
  have h6: "extract_tweet_id_from_url ?u = Some ''7''"
    by (simp add: extract_tweet_id_from_url_def py_split_def)
  note r1 = author_is_segment_after_host[of "''x.com/carol/status/9''" "[]"
      "[''carol'', ''status'', ''9'']", THEN conjunct1, THEN mp]
  have k1: "extract_author_from_url ''x.com/carol/status/9''
            = (case [''carol'', ''status'', ''9''] of [] \<Rightarrow> None | seg # others \<Rightarrow> Some seg)"
    by (rule r1) (intro conjI g1)
  note r2 = author_is_segment_after_host[of "''http://twitter.com/dave/status/4''" "[''http:'', []]"
      "[''dave'', ''status'', ''4'']", THEN conjunct2, THEN conjunct1, THEN mp]
  have k2: "extract_author_from_url ''http://twitter.com/dave/status/4''
            = (case [''dave'', ''status'', ''4''] of [] \<Rightarrow> None | seg # others \<Rightarrow> Some seg)"
    by (rule r2) (intro conjI g2)
  note r3 = author_is_segment_after_host[of "''/status/5/x.com''" "[[], ''status'', ''5'']" "[]",
      THEN conjunct1, THEN mp]
  have k3: "extract_author_from_url ''/status/5/x.com''
            = (case [] :: string list of [] \<Rightarrow> None | seg # others \<Rightarrow> Some seg)"
    by (rule r3) (intro conjI g3)
  note t = author_is_segment_after_host[of ?u _ _ "''https:''" "''alice''" "''12345?foo=bar''"
      "''7''" "{}" "''hello''" "[]", THEN conjunct2, THEN conjunct2]
  have c: "extract_author_from_url ?u = None"
    by (rule t[THEN conjunct1, THEN mp]) (intro conjI h4)
  have a: "extract_author_from_url (''https:'' @ ''//x.com/'' @ ''alice'' @ ''/status/'' @ ''12345?foo=bar'')
           = Some ''alice''"
    by (rule t[THEN conjunct2, THEN conjunct1, THEN mp]) (intro conjI h1(1,2,3))
  have b: "extract_author_from_url
             (''https:'' @ ''//twitter.com/'' @ ''alice'' @ ''/status/'' @ ''12345?foo=bar'')
           = Some ''alice''"
    by (rule t[THEN conjunct2, THEN conjunct2, THEN conjunct1, THEN mp])
       (intro conjI h1(1,2,4,3,5) h2)
  have d: "process_element \<lparr>link = Inr (Some ?u), inner_text = Inr ''hello''\<rparr> ([], {})
      = ([] @ [\<lparr>tw_tweet_id = ''7'', tw_content = ''hello'', tw_author = None, tw_url = ?u\<rparr>],
         insert ''7'' {})"
    by (rule t[THEN conjunct2, THEN conjunct2, THEN conjunct2, THEN mp])
       (intro conjI h5 h6 c, simp_all)
  from k1 have k1': "extract_author_from_url ''x.com/carol/status/9'' = Some ''carol''" by simp
  from k2 have k2': "extract_author_from_url ''http://twitter.com/dave/status/4'' = Some ''dave''"
    by simp
  from k3 have k3': "extract_author_from_url ''/status/5/x.com'' = None" by simp
  from a have a': "extract_author_from_url ''https://x.com/alice/status/12345?foo=bar'' = Some ''alice''"
    by simp
  from b have b': "extract_author_from_url ''https://twitter.com/alice/status/12345?foo=bar''
                   = Some ''alice''"
    by simp
  from d have d': "process_element \<lparr>link = Inr (Some ?u), inner_text = Inr ''hello''\<rparr> ([], {})
      = ([\<lparr>tw_tweet_id = ''7'', tw_content = ''hello'', tw_author = None, tw_url = ?u\<rparr>], {''7''})"
    by simp
  show ?thesis
    using g1 k1' g2 k2' g3 k3' h1 h2 a' b' h4 h5 h6 c d' by (intro conjI)
qed

text \<open>
  C5 as the claim words it fails: in \<^verbatim>\<open>https://x.com/i/web/status/123\<close> the segment before
  the marker is \<^verbatim>\<open>web\<close>, and the code returns \<^verbatim>\<open>i\<close>, the segment after the host.
\<close>

theorem author_not_segment_before_status:
  "extract_author_from_url ''https://x.com/i/web/status/123'' = Some ''i''
   \<and> segment_before_status ''https://x.com/i/web/status/123'' = ''web''
   \<and> extract_author_from_url ''https://x.com/i/web/status/123''
       \<noteq> Some (segment_before_status ''https://x.com/i/web/status/123'')"
  by (simp add: extract_author_from_url_def segment_before_status_def py_split_def py_get_def)

text \<open>
  C7: the example permalink yields the identifier \<^verbatim>\<open>12345\<close> and the author \<^verbatim>\<open>alice\<close>, and
  the element that carries it is collected with both; a URL without the \<^verbatim>\<open>/status/\<close>
  marker yields neither, and an element whose permalink has no marker leaves the
  collected list and the set of seen identifiers as they were.
\<close>

theorem extraction_examples:
  "extract_tweet_id_from_url ''https://x.com/alice/status/12345?foo=bar'' = Some ''12345''
   \<and> extract_author_from_url ''https://x.com/alice/status/12345?foo=bar'' = Some ''alice''
   \<and> process_element
        \<lparr>link = Inr (Some ''https://x.com/alice/status/12345?foo=bar''), inner_text = Inr txt\<rparr>
        ([], {})
      = ([\<lparr>tw_tweet_id = ''12345'', tw_content = txt, tw_author = Some ''alice'',
           tw_url = ''https://x.com/alice/status/12345?foo=bar''\<rparr>], {''12345''})
   \<and> (\<not> py_in ''/status/'' u \<longrightarrow>
        extract_tweet_id_from_url u = None \<and> extract_author_from_url u = None)
   \<and> (\<not> py_in ''/status/'' (if prefix ''http'' href then href else ''https://x.com'' @ href) \<longrightarrow>
        process_element \<lparr>link = Inr (Some href), inner_text = t\<rparr> st = st)"
proof -
  have i: "extract_tweet_id_from_url ''https://x.com/alice/status/12345?foo=bar'' = Some ''12345''"
    by (simp add: extract_tweet_id_from_url_def py_split_def)
  have a: "extract_author_from_url ''https://x.com/alice/status/12345?foo=bar'' = Some ''alice''"
    by (simp add: extract_author_from_url_def py_split_def py_get_def)
  have p: "process_element
        \<lparr>link = Inr (Some ''https://x.com/alice/status/12345?foo=bar''), inner_text = Inr txt\<rparr>
        ([], {})
      = ([\<lparr>tw_tweet_id = ''12345'', tw_content = txt, tw_author = Some ''alice'',
           tw_url = ''https://x.com/alice/status/12345?foo=bar''\<rparr>], {''12345''})"
    by (simp add: i a)
  have n: "\<not> py_in ''/status/'' (if prefix ''http'' href then href else ''https://x.com'' @ href) \<longrightarrow>
        process_element \<lparr>link = Inr (Some href), inner_text = t\<rparr> st = st"
    by (cases st) (simp add: no_marker_no_id Let_def)
  show ?thesis
    using i a p n by (simp add: no_marker_no_id no_marker_no_author)
qed

theorem extraction_examples_witness:
  "\<not> py_in ''/status/'' ''https://x.com/alice''
   \<and> extract_tweet_id_from_url ''https://x.com/alice'' = None
   \<and> extract_author_from_url ''https://x.com/alice'' = None
   \<and> \<not> py_in ''/status/'' (''https://x.com'' @ ''/alice/likes'')
   \<and> process_element \<lparr>link = Inr (Some ''/alice/likes''), inner_text = Inr ''x''\<rparr> ([], {})
       = ([], {})"
proof -
  have h1: "\<not> py_in ''/status/'' ''https://x.com/alice''" by simp
  have h2: "\<not> py_in ''/status/''
              (if prefix ''http'' ''/alice/likes'' then ''/alice/likes''
               else ''https://x.com'' @ ''/alice/likes'')"
    by simp
  note t = extraction_examples[where u = "''https://x.com/alice''" and href = "''/alice/likes''"
      and t = "Inr ''x''" and st = "([], {})"]
  have c1: "extract_tweet_id_from_url ''https://x.com/alice'' = None
            \<and> extract_author_from_url ''https://x.com/alice'' = None"
    using t h1 by blast
  have c2: "process_element \<lparr>link = Inr (Some ''/alice/likes''), inner_text = Inr ''x''\<rparr> ([], {})
            = ([], {})"
    using t h2 by blast
  have h2': "\<not> py_in ''/status/'' (''https://x.com'' @ ''/alice/likes'')" by simp
  show ?thesis using h1 h2' c1 c2 by (intro conjI) simp_all
qed

section \<open>Properties of the collection loop\<close>

lemma process_element_cases:
  "process_element el (td, pr) = (td, pr)
   \<or> (\<exists>i. i \<notin> pr \<and> process_element el (td, pr) = (td, insert i pr))
   \<or> (\<exists>i c a u. i \<notin> pr \<and> process_element el (td, pr)
         = (td @ [\<lparr>tw_tweet_id = i, tw_content = c, tw_author = a, tw_url = u\<rparr>], insert i pr))"
  by (auto simp: Let_def split: sum.splits option.splits)

lemma process_element_fresh: "ids_fresh st \<Longrightarrow> ids_fresh (process_element el st)"
proof -
  assume a: "ids_fresh st"
  obtain td pr where st: "st = (td, pr)" by (cases st)
  from process_element_cases[of el td pr] a show ?thesis
    unfolding st ids_fresh_def by (elim disjE exE conjE) auto
qed

lemma process_element_length:
  "length (fst (process_element el st)) \<le> Suc (length (fst st))"
proof -
  obtain td pr where st: "st = (td, pr)" by (cases st)
  from process_element_cases[of el td pr] show ?thesis
    unfolding st by (elim disjE exE conjE) auto
qed

lemma for_elements_fresh: "ids_fresh st \<Longrightarrow> ids_fresh (for_elements m es st)"
  by (induction es arbitrary: st) (auto simp: process_element_fresh)

lemma for_elements_length:
  "length (fst st) \<le> nat m \<Longrightarrow> length (fst (for_elements m es st)) \<le> nat m"
proof (induction es arbitrary: st)
  case Nil
  then show ?case by simp
next
  case (Cons e es)
  show ?case
  proof (cases "int (length (fst st)) \<ge> m")
    case True
    then show ?thesis using Cons.prems by simp
  next
    case False
    then have "Suc (length (fst st)) \<le> nat m" by linarith
    with process_element_length[of e st]
    have "length (fst (process_element e st)) \<le> nat m" by linarith
    from Cons.IH[OF this] False show ?thesis by simp
  qed
qed

declare collect_loop.simps [simp del]

lemma collect_loop_stop:
  "\<not> (int (length td) < m \<and> sa < max_scroll_attempts) \<Longrightarrow>
   collect_loop p m (td, pr, sa) = (td, pr, sa)"
  by (subst collect_loop.simps) auto

lemma collect_loop_step:
  assumes "int (length td) < m" "sa < max_scroll_attempts"
    and "for_elements m (p sa) (td, pr) = (td', pr')"
  shows "collect_loop p m (td, pr, sa)
         = collect_loop p m (td', pr', if int (length td') < m then sa + 1 else sa)"
  using assms by (subst collect_loop.simps) simp

lemma collect_loop_fresh:
  "ids_fresh (td, pr) \<Longrightarrow>
   ids_fresh (fst (collect_loop p m (td, pr, sa)), fst (snd (collect_loop p m (td, pr, sa))))"
proof (induction p m "(td, pr, sa)" arbitrary: td pr sa rule: collect_loop.induct)
  case (1 page max_tweets tweets_data processed scroll_attempts)
  show ?case
  proof (cases "int (length tweets_data) < max_tweets \<and> scroll_attempts < max_scroll_attempts")
    case False
    then show ?thesis using "1.prems" collect_loop_stop[OF False] by simp
  next
    case True
    obtain td' pr' where
      f: "for_elements max_tweets (page scroll_attempts) (tweets_data, processed) = (td', pr')"
      by (cases "for_elements max_tweets (page scroll_attempts) (tweets_data, processed)")
    have fr: "ids_fresh (td', pr')"
      using for_elements_fresh[OF "1.prems", of max_tweets "page scroll_attempts"] f by simp
    from True have c: "int (length tweets_data) < max_tweets"
      "scroll_attempts < max_scroll_attempts"
      by simp_all
    note step = collect_loop_step[where p = page and sa = scroll_attempts, OF c f]
    show ?thesis
    proof (cases "int (length td') < max_tweets")
      case t: True
      from "1.hyps"(1)[OF True f[symmetric] t fr] step t show ?thesis by simp
    next
      case t: False
      from "1.hyps"(2)[OF True f[symmetric] t fr] step t show ?thesis by simp
    qed
  qed
qed

lemma collect_loop_bounds:
  "length td \<le> nat m \<Longrightarrow> sa \<le> max_scroll_attempts \<Longrightarrow>
   (case collect_loop p m (td, pr, sa) of
      (td', pr', sa') \<Rightarrow>
        length td' \<le> nat m \<and> sa' \<le> max_scroll_attempts
        \<and> (m \<le> int (length td') \<or> sa' = max_scroll_attempts))"
proof (induction p m "(td, pr, sa)" arbitrary: td pr sa rule: collect_loop.induct)
  case (1 page max_tweets tweets_data processed scroll_attempts)
  show ?case
  proof (cases "int (length tweets_data) < max_tweets \<and> scroll_attempts < max_scroll_attempts")
    case False
    then show ?thesis using "1.prems" collect_loop_stop[OF False] by auto
  next
    case True
    obtain td' pr' where
      f: "for_elements max_tweets (page scroll_attempts) (tweets_data, processed) = (td', pr')"
      by (cases "for_elements max_tweets (page scroll_attempts) (tweets_data, processed)")
    have le: "length td' \<le> nat max_tweets"
      using for_elements_length[of "(tweets_data, processed)" max_tweets "page scroll_attempts"]
        "1.prems"(1) f by simp
    from True have c: "int (length tweets_data) < max_tweets"
      "scroll_attempts < max_scroll_attempts"
      by simp_all
    note step = collect_loop_step[where p = page and sa = scroll_attempts, OF c f]
    show ?thesis
    proof (cases "int (length td') < max_tweets")
      case t: True
      have "scroll_attempts + 1 \<le> max_scroll_attempts" using c(2) by simp
      from "1.hyps"(1)[OF True f[symmetric] t le this] step t show ?thesis by simp
    next
      case t: False
      from "1.hyps"(2)[OF True f[symmetric] t le "1.prems"(2)] step t show ?thesis by simp
    qed
  qed
qed

text \<open>
  C2, as the code has it. For every target \<open>m\<close> and every sequence of renderings the loop
  returns, without raising, a list of at most \<open>m\<close> records (none when \<open>m\<close> is zero or
  negative) after at most 20 scroll cycles, and it stops because the list reached the
  target or the scroll budget is used up. The target is an argument; the scroll budget is
  the constant 20.
\<close>

theorem collection_bounded:
  "(\<exists>ts. collect_tweets (Some p) m = Inr ts \<and> length ts \<le> nat m
        \<and> (m \<le> int (length ts) \<or> scroll_cycles p m = max_scroll_attempts))
   \<and> scroll_cycles p m \<le> max_scroll_attempts \<and> max_scroll_attempts = 20"
proof -
  have "length ([] :: tweet_data list) \<le> nat m" "0 \<le> max_scroll_attempts" by simp_all
  from collect_loop_bounds[OF this, of p "{}"]
  show ?thesis
    by (auto simp: collect_tweets_def scroll_cycles_def max_scroll_attempts_def split: prod.splits)
qed

theorem collection_bounded_witness:
  "collect_tweets
     (Some (\<lambda>k. [rendered_post ''/a/status/1'' ''one'', rendered_post ''/b/status/2'' ''two'',
                 rendered_post ''/c/status/3'' ''three''])) 2
   = Inr [\<lparr>tw_tweet_id = ''1'', tw_content = ''one'', tw_author = Some ''a'',
            tw_url = ''https://x.com/a/status/1''\<rparr>,
          \<lparr>tw_tweet_id = ''2'', tw_content = ''two'', tw_author = Some ''b'',
            tw_url = ''https://x.com/b/status/2''\<rparr>]
   \<and> scroll_cycles
       (\<lambda>k. [rendered_post ''/a/status/1'' ''one'', rendered_post ''/b/status/2'' ''two'',
              rendered_post ''/c/status/3'' ''three'']) 2 \<le> 20"
proof -
  let ?p = "\<lambda>k::nat. [rendered_post ''/a/status/1'' ''one'', rendered_post ''/b/status/2'' ''two'',
                       rendered_post ''/c/status/3'' ''three'']"
  have e: "collect_tweets (Some ?p) 2
   = Inr [\<lparr>tw_tweet_id = ''1'', tw_content = ''one'', tw_author = Some ''a'',
            tw_url = ''https://x.com/a/status/1''\<rparr>,
          \<lparr>tw_tweet_id = ''2'', tw_content = ''two'', tw_author = Some ''b'',
            tw_url = ''https://x.com/b/status/2''\<rparr>]"
    by code_simp
  from collection_bounded[of ?p 2] have "scroll_cycles ?p 2 \<le> 20" by simp
  with e show ?thesis by simp
qed

text \<open>
  C2 as the claim words it fails. With the target \<open>-1\<close> the loop returns the empty list,
  which is more than \<open>-1\<close> records; and on a timeline that never shows a post the loop
  makes 20 scroll cycles, the budget written in the code, which no input changes.
\<close>

theorem collection_bound_counterexample:
  "collect_tweets (Some (\<lambda>k. [])) (- 1) = Inr []
   \<and> \<not> int (length (projr (collect_tweets (Some (\<lambda>k. [])) (- 1)))) \<le> - 1
   \<and> scroll_cycles (\<lambda>k. []) 10 = 20"
  by (simp add: collect_tweets_def scroll_cycles_def collect_loop.simps max_scroll_attempts_def)

text \<open>
  C3: whatever the browser renders, and however often the same element comes back, the
  list the loop returns holds no identifier twice.
\<close>

theorem collected_ids_distinct:
  "\<exists>ts. collect_tweets (Some p) m = Inr ts \<and> distinct (map tw_tweet_id ts)"
proof -
  have "ids_fresh ([], {})" by (simp add: ids_fresh_def)
  from collect_loop_fresh[OF this, of p m 0]
  show ?thesis by (simp add: collect_tweets_def ids_fresh_def)
qed

theorem collected_ids_distinct_witness:
  "collect_tweets
     (Some (\<lambda>k. [rendered_post ''/a/status/1'' ''one'', rendered_post ''/b/status/2'' ''two'',
                 rendered_post ''/a/status/1'' ''one''])) 10
   = Inr [\<lparr>tw_tweet_id = ''1'', tw_content = ''one'', tw_author = Some ''a'',
            tw_url = ''https://x.com/a/status/1''\<rparr>,
          \<lparr>tw_tweet_id = ''2'', tw_content = ''two'', tw_author = Some ''b'',
            tw_url = ''https://x.com/b/status/2''\<rparr>]
   \<and> distinct (map tw_tweet_id (projr (collect_tweets
        (Some (\<lambda>k. [rendered_post ''/a/status/1'' ''one'', rendered_post ''/b/status/2'' ''two'',
                    rendered_post ''/a/status/1'' ''one''])) 10)))"
proof -
  let ?p = "\<lambda>k::nat. [rendered_post ''/a/status/1'' ''one'', rendered_post ''/b/status/2'' ''two'',
                       rendered_post ''/a/status/1'' ''one'']"
  have e: "collect_tweets (Some ?p) 10
   = Inr [\<lparr>tw_tweet_id = ''1'', tw_content = ''one'', tw_author = Some ''a'',
            tw_url = ''https://x.com/a/status/1''\<rparr>,
          \<lparr>tw_tweet_id = ''2'', tw_content = ''two'', tw_author = Some ''b'',
            tw_url = ''https://x.com/b/status/2''\<rparr>]"
    by code_simp
  from collected_ids_distinct[of ?p 10]
  have "distinct (map tw_tweet_id (projr (collect_tweets (Some ?p) 10)))" by auto
  with e show ?thesis by blast
qed

section \<open>Properties of the persistence gateway\<close>

lemma is_duplicate_through:
  "gets_through (select_faults w) \<Longrightarrow>
   is_duplicate tweet_id w
   = (tweet_id \<in> stored_ids w,
      w\<lparr>requests := requests w @ [Select tweet_id], select_faults := tl (select_faults w)\<rparr>)"
  by (cases "select_faults w" rule: gets_through.cases)
    (auto simp: is_duplicate_def table_select_eq_def stored_ids_def Let_def filter_empty_conv image_iff)

lemma is_duplicate_fault:
  "select_faults w = Some e # fs \<Longrightarrow>
   is_duplicate tweet_id w
   = (False,
      w\<lparr>requests := requests w @ [Select tweet_id], select_faults := fs,
        logged := logged w @ [Error_checking_duplicate tweet_id e]\<rparr>)"
  by (simp add: is_duplicate_def table_select_eq_def log_line_def Let_def)

lemma table_insert_through:
  "gets_through (insert_faults w) \<Longrightarrow>
   table_insert data w =
     (if row_tweet_id data \<in> stored_ids w
      then (Inl unique_violation,
            w\<lparr>requests := requests w @ [Insert data], insert_faults := tl (insert_faults w)\<rparr>)
      else (Inr (),
            w\<lparr>requests := requests w @ [Insert data], insert_faults := tl (insert_faults w),
              timeline_tweets := timeline_tweets w @ [data]\<rparr>))"
  by (cases "insert_faults w" rule: gets_through.cases)
    (auto simp: table_insert_def stored_ids_def Let_def)

lemma table_insert_fault:
  "insert_faults w = Some e # fs \<Longrightarrow>
   table_insert data w =
     (Inl e, w\<lparr>requests := requests w @ [Insert data], insert_faults := fs\<rparr>)"
  by (simp add: table_insert_def Let_def)

lemma unique_violation_recognised:
  "py_in ''duplicate'' (py_lower unique_violation) \<or> py_in ''unique'' (py_lower unique_violation)"
  by (simp add: unique_violation_def py_lower_def)


lemma is_duplicate_result:
  "fst (is_duplicate tweet_id w) = (gets_through (select_faults w) \<and> tweet_id \<in> stored_ids w)"
  by (cases "select_faults w" rule: gets_through.cases)
    (simp_all add: is_duplicate_through is_duplicate_fault)

lemma is_duplicate_frame:
  "timeline_tweets (snd (is_duplicate tweet_id w)) = timeline_tweets w
   \<and> insert_faults (snd (is_duplicate tweet_id w)) = insert_faults w
   \<and> select_faults (snd (is_duplicate tweet_id w)) = tl (select_faults w)
   \<and> requests (snd (is_duplicate tweet_id w)) = requests w @ [Select tweet_id]"
  by (cases "select_faults w" rule: gets_through.cases)
    (simp_all add: is_duplicate_through is_duplicate_fault)

lemma is_duplicate_stored [simp]: "stored_ids (snd (is_duplicate tweet_id w)) = stored_ids w"
  using is_duplicate_frame[of tweet_id w] by (simp add: stored_ids_def)

lemma save_tweet_found:
  assumes "gets_through (select_faults w)" "tweet_id \<in> stored_ids w"
  shows "save_tweet tweet_id content author tweet_url w
         = (False, w\<lparr>requests := requests w @ [Select tweet_id],
                     select_faults := tl (select_faults w),
                     logged := logged w @ [Skipping_duplicate tweet_id]\<rparr>)"
  using assms by (simp add: save_tweet_def is_duplicate_through log_line_def)

lemma save_tweet_not_found:
  assumes "\<not> fst (is_duplicate tweet_id w)"
  shows "save_tweet tweet_id content author tweet_url w
         = (case table_insert \<lparr>row_tweet_id = tweet_id, row_content = content,
                               row_author = author, row_tweet_url = tweet_url\<rparr>
                   (snd (is_duplicate tweet_id w)) of
             (Inr u, w2) \<Rightarrow> (True, log_line (Saved_new_tweet tweet_id author) w2)
           | (Inl e, w2) \<Rightarrow>
               if py_in ''duplicate'' (py_lower e) \<or> py_in ''unique'' (py_lower e)
               then (False, log_line (Already_exists tweet_id) w2)
               else (False, log_line (Error_saving_tweet tweet_id e) w2))"
  using assms by (cases "is_duplicate tweet_id w") (simp add: save_tweet_def)

lemma save_tweet_result:
  "fst (save_tweet tweet_id content author tweet_url w)
   = (tweet_id \<notin> stored_ids w \<and> gets_through (insert_faults w))"
proof (cases "fst (is_duplicate tweet_id w)")
  case True
  then show ?thesis
    by (simp add: is_duplicate_result save_tweet_found)
next
  case False
  let ?w1 = "snd (is_duplicate tweet_id w)"
  have f: "insert_faults ?w1 = insert_faults w" using is_duplicate_frame[of tweet_id w] by simp
  show ?thesis
  proof (cases "gets_through (insert_faults w)")
    case g: True
    then have "gets_through (insert_faults ?w1)" using f by simp
    then show ?thesis using g unique_violation_recognised
      by (simp add: save_tweet_not_found[OF False] table_insert_through)
  next
    case g: False
    then obtain e fs where "insert_faults w = Some e # fs"
      by (cases "insert_faults w" rule: gets_through.cases) auto
    then show ?thesis
      using f by (simp add: save_tweet_not_found[OF False] table_insert_fault)
  qed
qed


lemma save_tweet_write_fault:
  assumes "\<not> fst (is_duplicate tweet_id w)" "insert_faults w = Some e # fs"
  shows "save_tweet tweet_id content author tweet_url w
         = (False,
            log_line (if py_in ''duplicate'' (py_lower e) \<or> py_in ''unique'' (py_lower e)
                      then Already_exists tweet_id else Error_saving_tweet tweet_id e)
              ((snd (is_duplicate tweet_id w))
                 \<lparr>requests := requests w @ [Select tweet_id,
                     Insert \<lparr>row_tweet_id = tweet_id, row_content = content,
                             row_author = author, row_tweet_url = tweet_url\<rparr>],
                  insert_faults := fs\<rparr>))"
proof -
  let ?w1 = "snd (is_duplicate tweet_id w)"
  have f: "insert_faults ?w1 = Some e # fs" "requests ?w1 = requests w @ [Select tweet_id]"
    using is_duplicate_frame[of tweet_id w] assms(2) by simp_all
  show ?thesis
    by (simp add: save_tweet_not_found[OF assms(1)] table_insert_fault[OF f(1)] f(2))
qed

lemma save_tweet_write_violation:
  assumes "\<not> fst (is_duplicate tweet_id w)" "gets_through (insert_faults w)"
    "tweet_id \<in> stored_ids w"
  shows "save_tweet tweet_id content author tweet_url w
         = (False,
            log_line (Already_exists tweet_id)
              ((snd (is_duplicate tweet_id w))
                 \<lparr>requests := requests w @ [Select tweet_id,
                     Insert \<lparr>row_tweet_id = tweet_id, row_content = content,
                             row_author = author, row_tweet_url = tweet_url\<rparr>],
                  insert_faults := tl (insert_faults w)\<rparr>))"
proof -
  let ?w1 = "snd (is_duplicate tweet_id w)"
  have f: "insert_faults ?w1 = insert_faults w" "requests ?w1 = requests w @ [Select tweet_id]"
    using is_duplicate_frame[of tweet_id w] by simp_all
  then have g: "gets_through (insert_faults ?w1)" using assms(2) by simp
  show ?thesis
    using assms(3) unique_violation_recognised
    by (simp add: save_tweet_not_found[OF assms(1)] table_insert_through[OF g] f)
qed

lemma save_tweet_write_ok:
  assumes "tweet_id \<notin> stored_ids w" "gets_through (insert_faults w)"
  shows "save_tweet tweet_id content author tweet_url w
         = (True,
            log_line (Saved_new_tweet tweet_id author)
              ((snd (is_duplicate tweet_id w))
                 \<lparr>requests := requests w @ [Select tweet_id,
                     Insert \<lparr>row_tweet_id = tweet_id, row_content = content,
                             row_author = author, row_tweet_url = tweet_url\<rparr>],
                  insert_faults := tl (insert_faults w),
                  timeline_tweets := timeline_tweets w @
                    [\<lparr>row_tweet_id = tweet_id, row_content = content,
                      row_author = author, row_tweet_url = tweet_url\<rparr>]\<rparr>))"
proof -
  let ?w1 = "snd (is_duplicate tweet_id w)"
  have n: "\<not> fst (is_duplicate tweet_id w)" using assms(1) by (simp add: is_duplicate_result)
  have f: "insert_faults ?w1 = insert_faults w" "requests ?w1 = requests w @ [Select tweet_id]"
    "timeline_tweets ?w1 = timeline_tweets w"
    using is_duplicate_frame[of tweet_id w] by simp_all
  then have g: "gets_through (insert_faults ?w1)" using assms(2) by simp
  show ?thesis
    using assms(1) by (simp add: save_tweet_not_found[OF n] table_insert_through[OF g] f)
qed

lemma save_tweet_table:
  "timeline_tweets (snd (save_tweet tweet_id content author tweet_url w))
   = (if fst (save_tweet tweet_id content author tweet_url w)
      then timeline_tweets w @ [\<lparr>row_tweet_id = tweet_id, row_content = content,
                                 row_author = author, row_tweet_url = tweet_url\<rparr>]
      else timeline_tweets w)"
proof (cases "fst (is_duplicate tweet_id w)")
  case True
  then show ?thesis by (simp add: is_duplicate_result save_tweet_found)
next
  case False
  have t: "timeline_tweets (snd (is_duplicate tweet_id w)) = timeline_tweets w"
    using is_duplicate_frame[of tweet_id w] by simp
  show ?thesis
  proof (cases "gets_through (insert_faults w)")
    case g: True
    show ?thesis
    proof (cases "tweet_id \<in> stored_ids w")
      case True
      then show ?thesis by (simp add: save_tweet_write_violation[OF False g] log_line_def t)
    next
      case False
      then show ?thesis by (simp add: save_tweet_write_ok[OF _ g] log_line_def)
    qed
  next
    case g: False
    then obtain e fs where "insert_faults w = Some e # fs"
      by (cases "insert_faults w" rule: gets_through.cases) auto
    then show ?thesis by (simp add: save_tweet_write_fault[OF False] log_line_def t)
  qed
qed

lemma save_tweet_faults:
  "select_faults (snd (save_tweet tweet_id content author tweet_url w)) = tl (select_faults w)
   \<and> insert_faults (snd (save_tweet tweet_id content author tweet_url w))
       = (if fst (is_duplicate tweet_id w) then insert_faults w else tl (insert_faults w))"
proof (cases "fst (is_duplicate tweet_id w)")
  case True
  then show ?thesis by (simp add: is_duplicate_result save_tweet_found)
next
  case False
  have t: "select_faults (snd (is_duplicate tweet_id w)) = tl (select_faults w)"
    using is_duplicate_frame[of tweet_id w] by simp
  show ?thesis
  proof (cases "gets_through (insert_faults w)")
    case g: True
    show ?thesis
    proof (cases "tweet_id \<in> stored_ids w")
      case True
      then show ?thesis using False
        by (simp add: save_tweet_write_violation[OF False g] log_line_def t)
    next
      case n: False
      then show ?thesis using False by (simp add: save_tweet_write_ok[OF n g] log_line_def t)
    qed
  next
    case g: False
    then obtain e fs where "insert_faults w = Some e # fs"
      by (cases "insert_faults w" rule: gets_through.cases) auto
    then show ?thesis using False by (simp add: save_tweet_write_fault[OF False] log_line_def t)
  qed
qed

lemma save_tweet_requests:
  "requests (snd (save_tweet tweet_id content author tweet_url w))
   = requests w @
     (if fst (is_duplicate tweet_id w) then [Select tweet_id]
      else [Select tweet_id, Insert \<lparr>row_tweet_id = tweet_id, row_content = content,
                                     row_author = author, row_tweet_url = tweet_url\<rparr>])"
proof (cases "fst (is_duplicate tweet_id w)")
  case True
  then show ?thesis by (simp add: is_duplicate_result save_tweet_found)
next
  case False
  show ?thesis
  proof (cases "gets_through (insert_faults w)")
    case g: True
    show ?thesis
    proof (cases "tweet_id \<in> stored_ids w")
      case True
      then show ?thesis using False
        by (simp add: save_tweet_write_violation[OF False g] log_line_def)
    next
      case n: False
      then show ?thesis using False by (simp add: save_tweet_write_ok[OF n g] log_line_def)
    qed
  next
    case g: False
    then obtain e fs where "insert_faults w = Some e # fs"
      by (cases "insert_faults w" rule: gets_through.cases) auto
    then show ?thesis using False by (simp add: save_tweet_write_fault[OF False] log_line_def)
  qed
qed

lemma rows_with_fresh: "tweet_id \<notin> stored_ids w \<Longrightarrow> rows_with tweet_id w = []"
  by (auto simp: rows_with_def stored_ids_def filter_empty_conv)

lemma inserts_of_append: "inserts_of (xs @ ys) = inserts_of xs @ inserts_of ys"
  by (induction xs rule: inserts_of.induct) auto

text \<open>
  C1, as the code has it. In a store that holds no row with the identifier and lets the
  first write through, the first call saves the record and the second, with the same
  record, does not, whether its existence check gets through (the duplicate is found) or
  fails (the write is sent and stopped by the uniqueness constraint or by a fault); the
  table then holds exactly one row with the identifier, the one that was saved, and the
  second call left the table as it was. In any store, a call whose identifier is already
  stored is not saved and leaves the table unchanged, and it sends no insert request when
  the existence check gets through.
\<close>

theorem insert_twice:
  "(tweet_id \<notin> stored_ids w \<and> gets_through (insert_faults w) \<longrightarrow>
      fst (save_tweet tweet_id content author tweet_url w)
      \<and> \<not> fst (save_tweet tweet_id content author tweet_url
                 (snd (save_tweet tweet_id content author tweet_url w)))
      \<and> rows_with tweet_id (snd (save_tweet tweet_id content author tweet_url
                                  (snd (save_tweet tweet_id content author tweet_url w))))
          = [\<lparr>row_tweet_id = tweet_id, row_content = content, row_author = author,
              row_tweet_url = tweet_url\<rparr>]
      \<and> timeline_tweets (snd (save_tweet tweet_id content author tweet_url
                                  (snd (save_tweet tweet_id content author tweet_url w))))
          = timeline_tweets (snd (save_tweet tweet_id content author tweet_url w)))
   \<and> (tweet_id \<in> stored_ids w \<longrightarrow>
        \<not> fst (save_tweet tweet_id content author tweet_url w)
        \<and> timeline_tweets (snd (save_tweet tweet_id content author tweet_url w))
            = timeline_tweets w)
   \<and> (tweet_id \<in> stored_ids w \<and> gets_through (select_faults w) \<longrightarrow>
        inserts_of (requests (snd (save_tweet tweet_id content author tweet_url w)))
          = inserts_of (requests w))"
proof (intro conjI impI)
  let ?row = "\<lparr>row_tweet_id = tweet_id, row_content = content, row_author = author,
              row_tweet_url = tweet_url\<rparr>"
  let ?w1 = "snd (save_tweet tweet_id content author tweet_url w)"
  let ?w2 = "snd (save_tweet tweet_id content author tweet_url ?w1)"
  assume a: "tweet_id \<notin> stored_ids w \<and> gets_through (insert_faults w)"
  then have r1: "fst (save_tweet tweet_id content author tweet_url w)"
    by (simp add: save_tweet_result)
  then show "fst (save_tweet tweet_id content author tweet_url w)" .
  have t1: "timeline_tweets ?w1 = timeline_tweets w @ [?row]"
    using r1 by (simp add: save_tweet_table)
  then have s1: "tweet_id \<in> stored_ids ?w1" by (simp add: stored_ids_def)
  then show r2: "\<not> fst (save_tweet tweet_id content author tweet_url ?w1)"
    by (simp add: save_tweet_result)
  then show t2: "timeline_tweets ?w2 = timeline_tweets ?w1"
    by (simp add: save_tweet_table)
  show "rows_with tweet_id ?w2 = [?row]"
    using a rows_with_fresh[of tweet_id w] unfolding rows_with_def t2 t1 by simp
next
  assume "tweet_id \<in> stored_ids w"
  then show n: "\<not> fst (save_tweet tweet_id content author tweet_url w)"
    by (simp add: save_tweet_result)
  then show "timeline_tweets (snd (save_tweet tweet_id content author tweet_url w))
            = timeline_tweets w"
    by (simp add: save_tweet_table)
next
  assume "tweet_id \<in> stored_ids w \<and> gets_through (select_faults w)"
  then show "inserts_of (requests (snd (save_tweet tweet_id content author tweet_url w)))
          = inserts_of (requests w)"
    by (simp add: save_tweet_requests is_duplicate_result inserts_of_append)
qed

text \<open>
  The witness is a store whose second existence check fails: the first call saves, the
  second sends its write, which the uniqueness constraint stops.
\<close>

theorem insert_twice_witness:
  "''1'' \<notin> stored_ids (initial_world\<lparr>select_faults := [None, Some ''timed out'']\<rparr>)
   \<and> gets_through (insert_faults (initial_world\<lparr>select_faults := [None, Some ''timed out'']\<rparr>))
   \<and> fst (save_tweet ''1'' ''hello'' (Some ''alice'') ''https://x.com/alice/status/1''
            (initial_world\<lparr>select_faults := [None, Some ''timed out'']\<rparr>))
   \<and> \<not> fst (save_tweet ''1'' ''hello'' (Some ''alice'') ''https://x.com/alice/status/1''
         (snd (save_tweet ''1'' ''hello'' (Some ''alice'') ''https://x.com/alice/status/1''
                 (initial_world\<lparr>select_faults := [None, Some ''timed out'']\<rparr>))))
   \<and> rows_with ''1''
        (snd (save_tweet ''1'' ''hello'' (Some ''alice'') ''https://x.com/alice/status/1''
           (snd (save_tweet ''1'' ''hello'' (Some ''alice'') ''https://x.com/alice/status/1''
                   (initial_world\<lparr>select_faults := [None, Some ''timed out'']\<rparr>)))))
      = [\<lparr>row_tweet_id = ''1'', row_content = ''hello'', row_author = Some ''alice'',
          row_tweet_url = ''https://x.com/alice/status/1''\<rparr>]
   \<and> logged
        (snd (save_tweet ''1'' ''hello'' (Some ''alice'') ''https://x.com/alice/status/1''
           (snd (save_tweet ''1'' ''hello'' (Some ''alice'') ''https://x.com/alice/status/1''
                   (initial_world\<lparr>select_faults := [None, Some ''timed out'']\<rparr>)))))
      = [Saved_new_tweet ''1'' (Some ''alice''), Error_checking_duplicate ''1'' ''timed out'',
         Already_exists ''1'']
   \<and> ''1'' \<in> stored_ids
        (initial_world\<lparr>timeline_tweets :=
           [\<lparr>row_tweet_id = ''1'', row_content = ''old'', row_author = None,
             row_tweet_url = ''https://x.com/bob/status/1''\<rparr>]\<rparr>)
   \<and> gets_through (select_faults
        (initial_world\<lparr>timeline_tweets :=
           [\<lparr>row_tweet_id = ''1'', row_content = ''old'', row_author = None,
             row_tweet_url = ''https://x.com/bob/status/1''\<rparr>]\<rparr>))
   \<and> timeline_tweets
        (snd (save_tweet ''1'' ''hello'' (Some ''alice'') ''https://x.com/alice/status/1''
           (initial_world\<lparr>timeline_tweets :=
              [\<lparr>row_tweet_id = ''1'', row_content = ''old'', row_author = None,
                row_tweet_url = ''https://x.com/bob/status/1''\<rparr>]\<rparr>)))
      = [\<lparr>row_tweet_id = ''1'', row_content = ''old'', row_author = None,
          row_tweet_url = ''https://x.com/bob/status/1''\<rparr>]
   \<and> inserts_of (requests
        (snd (save_tweet ''1'' ''hello'' (Some ''alice'') ''https://x.com/alice/status/1''
           (initial_world\<lparr>timeline_tweets :=
              [\<lparr>row_tweet_id = ''1'', row_content = ''old'', row_author = None,
                row_tweet_url = ''https://x.com/bob/status/1''\<rparr>]\<rparr>)))) = []"
proof -
  let ?new = "initial_world\<lparr>select_faults := [None, Some ''timed out'']\<rparr>"
  let ?old = "initial_world\<lparr>timeline_tweets :=
           [\<lparr>row_tweet_id = ''1'', row_content = ''old'', row_author = None,
             row_tweet_url = ''https://x.com/bob/status/1''\<rparr>]\<rparr>"
  have h1: "''1'' \<notin> stored_ids ?new \<and> gets_through (insert_faults ?new)"
    by (simp add: initial_world_def stored_ids_def)
  have h2: "''1'' \<in> stored_ids ?old" by (simp add: initial_world_def stored_ids_def)
  have h3: "gets_through (select_faults ?old)" by (simp add: initial_world_def)
  have e: "timeline_tweets ?old = [\<lparr>row_tweet_id = ''1'', row_content = ''old'', row_author = None,
             row_tweet_url = ''https://x.com/bob/status/1''\<rparr>]"
    "inserts_of (requests ?old) = []"
    by (simp_all add: initial_world_def)
  have l: "logged
        (snd (save_tweet ''1'' ''hello'' (Some ''alice'') ''https://x.com/alice/status/1''
           (snd (save_tweet ''1'' ''hello'' (Some ''alice'') ''https://x.com/alice/status/1''
                   ?new))))
      = [Saved_new_tweet ''1'' (Some ''alice''), Error_checking_duplicate ''1'' ''timed out'',
         Already_exists ''1'']"
    by (simp add: initial_world_def save_tweet_def is_duplicate_def table_select_eq_def
        table_insert_def log_line_def Let_def unique_violation_def py_lower_def)
  note new = insert_twice[of "''1''" ?new "''hello''" "Some ''alice''"
      "''https://x.com/alice/status/1''"]
  note old = insert_twice[of "''1''" ?old "''hello''" "Some ''alice''"
      "''https://x.com/alice/status/1''"]
  show ?thesis
    using h1 h2 h3 l new old unfolding e by (intro conjI) (blast | simp)+
qed

text \<open>
  C1 as the claim words it, for every store state, fails: when the store already holds
  the identifier, neither of the two calls saves; and when the store holds no such row
  but both writes fail, neither call saves and no row with the identifier is stored.
\<close>

theorem insert_twice_counterexample:
  "\<not> fst (save_tweet ''1'' ''hello'' (Some ''alice'') ''https://x.com/alice/status/1''
          (initial_world\<lparr>timeline_tweets :=
             [\<lparr>row_tweet_id = ''1'', row_content = ''old'', row_author = None,
               row_tweet_url = ''https://x.com/bob/status/1''\<rparr>]\<rparr>))
   \<and> \<not> fst (save_tweet ''1'' ''hello'' (Some ''alice'') ''https://x.com/alice/status/1''
          (snd (save_tweet ''1'' ''hello'' (Some ''alice'') ''https://x.com/alice/status/1''
             (initial_world\<lparr>timeline_tweets :=
                [\<lparr>row_tweet_id = ''1'', row_content = ''old'', row_author = None,
                  row_tweet_url = ''https://x.com/bob/status/1''\<rparr>]\<rparr>))))
   \<and> \<not> fst (save_tweet ''1'' ''hello'' (Some ''alice'') ''https://x.com/alice/status/1''
          (initial_world\<lparr>insert_faults := [Some ''Connection reset'', Some ''Connection reset'']\<rparr>))
   \<and> \<not> fst (save_tweet ''1'' ''hello'' (Some ''alice'') ''https://x.com/alice/status/1''
          (snd (save_tweet ''1'' ''hello'' (Some ''alice'') ''https://x.com/alice/status/1''
             (initial_world\<lparr>insert_faults := [Some ''Connection reset'', Some ''Connection reset'']\<rparr>))))
   \<and> rows_with ''1''
        (snd (save_tweet ''1'' ''hello'' (Some ''alice'') ''https://x.com/alice/status/1''
          (snd (save_tweet ''1'' ''hello'' (Some ''alice'') ''https://x.com/alice/status/1''
             (initial_world\<lparr>insert_faults := [Some ''Connection reset'', Some ''Connection reset'']\<rparr>)))))
      = []"
  by (simp add: initial_world_def save_tweet_def is_duplicate_def table_select_eq_def
      table_insert_def log_line_def Let_def py_lower_def rows_with_def)

text \<open>
  C4, as the code has it. \<open>save_tweet\<close> returns a truth value, true exactly when the row
  was written. When the existence check finds the identifier it returns false without
  sending a write, and logs the skip at level INFO. When the check failed and the write
  hits the uniqueness constraint it returns false and logs, at level WARNING, that the
  row already exists. When the write raises any error, the code reads the message: if its
  lower-case form contains \<^verbatim>\<open>duplicate\<close> or \<^verbatim>\<open>unique\<close>, the failure is taken for a
  uniqueness violation, whatever it was, and logged at level WARNING; otherwise it is
  logged at level ERROR. Either way the call returns false and raises nothing, and the
  table is left as it was.
\<close>

theorem save_tweet_outcomes:
  "(gets_through (select_faults w) \<and> tweet_id \<in> stored_ids w \<longrightarrow>
      save_tweet tweet_id content author tweet_url w
      = (False, w\<lparr>requests := requests w @ [Select tweet_id],
                  select_faults := tl (select_faults w),
                  logged := logged w @ [Skipping_duplicate tweet_id]\<rparr>)
      \<and> level_of (last (logged (snd (save_tweet tweet_id content author tweet_url w))))
          = INFO)
   \<and> (\<not> gets_through (select_faults w) \<and> tweet_id \<in> stored_ids w
        \<and> gets_through (insert_faults w) \<longrightarrow>
        \<not> fst (save_tweet tweet_id content author tweet_url w)
        \<and> timeline_tweets (snd (save_tweet tweet_id content author tweet_url w))
            = timeline_tweets w
        \<and> last (logged (snd (save_tweet tweet_id content author tweet_url w)))
            = Already_exists tweet_id
        \<and> level_of (last (logged (snd (save_tweet tweet_id content author tweet_url w))))
            = WARNING)
   \<and> (\<not> (gets_through (select_faults w) \<and> tweet_id \<in> stored_ids w)
        \<and> insert_faults w = Some e # fs \<longrightarrow>
        \<not> fst (save_tweet tweet_id content author tweet_url w)
        \<and> timeline_tweets (snd (save_tweet tweet_id content author tweet_url w))
            = timeline_tweets w
        \<and> last (logged (snd (save_tweet tweet_id content author tweet_url w)))
            = (if py_in ''duplicate'' (py_lower e) \<or> py_in ''unique'' (py_lower e)
               then Already_exists tweet_id else Error_saving_tweet tweet_id e)
        \<and> level_of (last (logged (snd (save_tweet tweet_id content author tweet_url w))))
            = (if py_in ''duplicate'' (py_lower e) \<or> py_in ''unique'' (py_lower e)
               then WARNING else ERROR))
   \<and> fst (save_tweet tweet_id content author tweet_url w)
       = (tweet_id \<notin> stored_ids w \<and> gets_through (insert_faults w))"
proof (intro conjI impI)
  assume a: "gets_through (select_faults w) \<and> tweet_id \<in> stored_ids w"
  then show "save_tweet tweet_id content author tweet_url w
      = (False, w\<lparr>requests := requests w @ [Select tweet_id],
                  select_faults := tl (select_faults w),
                  logged := logged w @ [Skipping_duplicate tweet_id]\<rparr>)"
    by (simp add: save_tweet_found)
  from a show "level_of (last (logged (snd (save_tweet tweet_id content author tweet_url w))))
          = INFO"
    by (simp add: save_tweet_found)
next
  assume a: "\<not> gets_through (select_faults w) \<and> tweet_id \<in> stored_ids w
        \<and> gets_through (insert_faults w)"
  then have n: "\<not> fst (is_duplicate tweet_id w)" by (simp add: is_duplicate_result)
  from a have g: "gets_through (insert_faults w)" and s: "tweet_id \<in> stored_ids w" by simp_all
  note v = save_tweet_write_violation[OF n g s, of content author tweet_url]
  show "\<not> fst (save_tweet tweet_id content author tweet_url w)" by (simp add: v)
  show "timeline_tweets (snd (save_tweet tweet_id content author tweet_url w)) = timeline_tweets w"
    using is_duplicate_frame[of tweet_id w] by (simp add: v log_line_def)
  show l: "last (logged (snd (save_tweet tweet_id content author tweet_url w)))
            = Already_exists tweet_id"
    by (simp add: v log_line_def)
  show "level_of (last (logged (snd (save_tweet tweet_id content author tweet_url w))))
            = WARNING"
    by (simp add: l)
next
  assume a: "\<not> (gets_through (select_faults w) \<and> tweet_id \<in> stored_ids w)
        \<and> insert_faults w = Some e # fs"
  then have n: "\<not> fst (is_duplicate tweet_id w)" by (simp add: is_duplicate_result)
  from a have f: "insert_faults w = Some e # fs" by simp
  note v = save_tweet_write_fault[OF n f, of content author tweet_url]
  show "\<not> fst (save_tweet tweet_id content author tweet_url w)" by (simp add: v)
  show "timeline_tweets (snd (save_tweet tweet_id content author tweet_url w)) = timeline_tweets w"
    using is_duplicate_frame[of tweet_id w] by (simp add: v log_line_def)
  show l: "last (logged (snd (save_tweet tweet_id content author tweet_url w)))
            = (if py_in ''duplicate'' (py_lower e) \<or> py_in ''unique'' (py_lower e)
               then Already_exists tweet_id else Error_saving_tweet tweet_id e)"
    by (simp add: v log_line_def)
  show "level_of (last (logged (snd (save_tweet tweet_id content author tweet_url w))))
            = (if py_in ''duplicate'' (py_lower e) \<or> py_in ''unique'' (py_lower e)
               then WARNING else ERROR)"
    unfolding l by simp
next
  show "fst (save_tweet tweet_id content author tweet_url w)
       = (tweet_id \<notin> stored_ids w \<and> gets_through (insert_faults w))"
    by (rule save_tweet_result)
qed

text \<open>
  The witness runs the four cases: an identifier that the check finds; a failed check
  followed by the constraint violation; a connection error, logged at ERROR; and a name
  resolution error whose host name contains \<^verbatim>\<open>unique\<close>, logged at WARNING as a row that
  already exists although the table is empty.
\<close>

theorem save_tweet_outcomes_witness:
  "gets_through (select_faults (initial_world\<lparr>timeline_tweets :=
       [\<lparr>row_tweet_id = ''1'', row_content = ''old'', row_author = None, row_tweet_url = ''u0''\<rparr>]\<rparr>))
   \<and> ''1'' \<in> stored_ids (initial_world\<lparr>timeline_tweets :=
       [\<lparr>row_tweet_id = ''1'', row_content = ''old'', row_author = None, row_tweet_url = ''u0''\<rparr>]\<rparr>)
   \<and> save_tweet ''1'' ''hello'' None ''u1'' (initial_world\<lparr>timeline_tweets :=
       [\<lparr>row_tweet_id = ''1'', row_content = ''old'', row_author = None, row_tweet_url = ''u0''\<rparr>]\<rparr>)
      = (False,
         \<lparr>timeline_tweets =
            [\<lparr>row_tweet_id = ''1'', row_content = ''old'', row_author = None, row_tweet_url = ''u0''\<rparr>],
          select_faults = [], insert_faults = [], requests = [Select ''1''],
          logged = [Skipping_duplicate ''1'']\<rparr>)
   \<and> \<not> gets_through (select_faults (initial_world\<lparr>timeline_tweets :=
       [\<lparr>row_tweet_id = ''1'', row_content = ''old'', row_author = None, row_tweet_url = ''u0''\<rparr>],
       select_faults := [Some ''timed out'']\<rparr>))
   \<and> level_of (last (logged (snd (save_tweet ''1'' ''hello'' None ''u1'' (initial_world\<lparr>timeline_tweets :=
       [\<lparr>row_tweet_id = ''1'', row_content = ''old'', row_author = None, row_tweet_url = ''u0''\<rparr>],
       select_faults := [Some ''timed out'']\<rparr>)))))
      = WARNING
   \<and> insert_faults (initial_world\<lparr>insert_faults := [Some ''Connection reset'']\<rparr>)
      = Some ''Connection reset'' # []
   \<and> \<not> fst (save_tweet ''1'' ''hello'' None ''u1''
              (initial_world\<lparr>insert_faults := [Some ''Connection reset'']\<rparr>))
   \<and> last (logged (snd (save_tweet ''1'' ''hello'' None ''u1''
              (initial_world\<lparr>insert_faults := [Some ''Connection reset'']\<rparr>))))
      = Error_saving_tweet ''1'' ''Connection reset''
   \<and> level_of (last (logged (snd (save_tweet ''1'' ''hello'' None ''u1''
              (initial_world\<lparr>insert_faults := [Some ''Connection reset'']\<rparr>)))))
      = ERROR
   \<and> insert_faults
        (initial_world\<lparr>insert_faults := [Some ''could not resolve host unique-proj.supabase.co'']\<rparr>)
      = Some ''could not resolve host unique-proj.supabase.co'' # []
   \<and> last (logged (snd (save_tweet ''1'' ''hello'' None ''u1''
        (initial_world\<lparr>insert_faults := [Some ''could not resolve host unique-proj.supabase.co'']\<rparr>))))
      = Already_exists ''1''
   \<and> level_of (last (logged (snd (save_tweet ''1'' ''hello'' None ''u1''
        (initial_world\<lparr>insert_faults := [Some ''could not resolve host unique-proj.supabase.co'']\<rparr>)))))
      = WARNING"
proof -
  let ?row = "\<lparr>row_tweet_id = ''1'', row_content = ''old'', row_author = None, row_tweet_url = ''u0''\<rparr>"
  let ?found = "initial_world\<lparr>timeline_tweets := [?row]\<rparr>"
  let ?race = "initial_world\<lparr>timeline_tweets := [?row], select_faults := [Some ''timed out'']\<rparr>"
  let ?fail = "initial_world\<lparr>insert_faults := [Some ''Connection reset'']\<rparr>"
  let ?dns = "initial_world\<lparr>insert_faults := [Some ''could not resolve host unique-proj.supabase.co'']\<rparr>"
  have f: "gets_through (select_faults ?found)" "''1'' \<in> stored_ids ?found"
    by (simp_all add: initial_world_def stored_ids_def)
  have r: "\<not> gets_through (select_faults ?race)" "''1'' \<in> stored_ids ?race"
    "gets_through (insert_faults ?race)"
    by (simp_all add: initial_world_def stored_ids_def)
  have x: "\<not> (gets_through (select_faults ?fail) \<and> ''1'' \<in> stored_ids ?fail)"
    "insert_faults ?fail = Some ''Connection reset'' # []"
    by (simp_all add: initial_world_def stored_ids_def)
  have xe: "\<not> (py_in ''duplicate'' (py_lower ''Connection reset'')
         \<or> py_in ''unique'' (py_lower ''Connection reset''))"
    by (simp add: py_lower_def)
  have d: "\<not> (gets_through (select_faults ?dns) \<and> ''1'' \<in> stored_ids ?dns)"
    "insert_faults ?dns = Some ''could not resolve host unique-proj.supabase.co'' # []"
    by (simp_all add: initial_world_def stored_ids_def)
  have de: "py_in ''duplicate'' (py_lower ''could not resolve host unique-proj.supabase.co'')
         \<or> py_in ''unique'' (py_lower ''could not resolve host unique-proj.supabase.co'')"
    by (simp add: py_lower_def)
  have c1: "save_tweet ''1'' ''hello'' None ''u1'' ?found
      = (False, ?found\<lparr>requests := requests ?found @ [Select ''1''],
                  select_faults := tl (select_faults ?found),
                  logged := logged ?found @ [Skipping_duplicate ''1'']\<rparr>)"
    using save_tweet_outcomes[of ?found "''1''" "''hello''" None "''u1''"] f by blast
  have c2: "level_of (last (logged (snd (save_tweet ''1'' ''hello'' None ''u1'' ?race)))) = WARNING"
    using save_tweet_outcomes[of ?race "''1''" "''hello''" None "''u1''"] r by blast
  note t3 = save_tweet_outcomes[of ?fail "''1''" "''hello''" None "''u1''" "''Connection reset''" "[]"]
  have c3: "\<not> fst (save_tweet ''1'' ''hello'' None ''u1'' ?fail)
     \<and> last (logged (snd (save_tweet ''1'' ''hello'' None ''u1'' ?fail)))
        = Error_saving_tweet ''1'' ''Connection reset''
     \<and> level_of (last (logged (snd (save_tweet ''1'' ''hello'' None ''u1'' ?fail)))) = ERROR"
    using t3 x xe by (simp only: if_False) blast
  note t4 = save_tweet_outcomes[of ?dns "''1''" "''hello''" None "''u1''"
      "''could not resolve host unique-proj.supabase.co''" "[]"]
  have c4: "last (logged (snd (save_tweet ''1'' ''hello'' None ''u1'' ?dns))) = Already_exists ''1''
     \<and> level_of (last (logged (snd (save_tweet ''1'' ''hello'' None ''u1'' ?dns)))) = WARNING"
    using t4 d de by (simp only: if_True) blast
  from c1 have c1': "save_tweet ''1'' ''hello'' None ''u1'' ?found
      = (False,
         \<lparr>timeline_tweets = [?row],
          select_faults = [], insert_faults = [], requests = [Select ''1''],
          logged = [Skipping_duplicate ''1'']\<rparr>)"
    by (simp add: initial_world_def)
  show ?thesis
    using f r(1) x(2) d(2) c1' c2 c3 c4 by (intro conjI) blast+
qed

text \<open>
  C4 as the claim words it fails: a write that fails with a connection error returns
  the same value as a skipped duplicate, and the run counts it in the tally of skipped
  duplicates.
\<close>

theorem failed_write_returns_as_duplicate:
  "fst (save_tweet ''1'' ''hello'' None ''u1''
          (initial_world\<lparr>insert_faults := [Some ''Connection reset'']\<rparr>))
   = fst (save_tweet ''1'' ''hello'' None ''u1''
          (initial_world\<lparr>timeline_tweets :=
             [\<lparr>row_tweet_id = ''1'', row_content = ''old'', row_author = None,
               row_tweet_url = ''u0''\<rparr>]\<rparr>))
   \<and> fst (save_all
            [\<lparr>tw_tweet_id = ''1'', tw_content = ''hello'', tw_author = None, tw_url = ''u1''\<rparr>]
            (0, 0) (initial_world\<lparr>insert_faults := [Some ''Connection reset'']\<rparr>))
      = (0, 1)"
  by (simp add: initial_world_def save_tweet_def is_duplicate_def table_select_eq_def
      table_insert_def log_line_def Let_def py_lower_def)

lemma exists_checks_fail_step:
  assumes "exists_checks_fail (Suc n) w"
  shows "\<exists>e fs. select_faults w = Some e # fs"
    and "exists_checks_fail n (snd (save_tweet tweet_id content author tweet_url w))"
proof -
  from assms obtain f fs where c: "select_faults w = f # fs"
    by (cases "select_faults w") (auto simp: exists_checks_fail_def)
  with assms obtain e where e: "f = Some e" by (cases f) (auto simp: exists_checks_fail_def)
  from c e show "\<exists>e fs. select_faults w = Some e # fs" by simp
  from assms c show "exists_checks_fail n (snd (save_tweet tweet_id content author tweet_url w))"
    using save_tweet_faults[of tweet_id content author tweet_url w]
    by (simp add: exists_checks_fail_def)
qed

lemma save_all_Cons:
  "save_all (t # tws) (sv, sk) w
   = save_all tws
       (if fst (save_tweet (tw_tweet_id t) (tw_content t) (tw_author t) (tw_url t) w)
        then (sv + 1, sk) else (sv, sk + 1))
       (snd (save_tweet (tw_tweet_id t) (tw_content t) (tw_author t) (tw_url t) w))"
  by (cases "save_tweet (tw_tweet_id t) (tw_content t) (tw_author t) (tw_url t) w";
      cases "fst (save_tweet (tw_tweet_id t) (tw_content t) (tw_author t) (tw_url t) w)")
     auto

lemma save_all_inserts_when_checks_fail:
  "exists_checks_fail (length tws) w \<Longrightarrow>
   inserts_of (requests (snd (save_all tws counts w)))
   = inserts_of (requests w) @ map row_of tws"
proof (induction tws arbitrary: counts w)
  case Nil
  then show ?case by simp
next
  case (Cons t tws)
  obtain sv sk where counts: "counts = (sv, sk)" by (cases counts)
  let ?s = "save_tweet (tw_tweet_id t) (tw_content t) (tw_author t) (tw_url t) w"
  from Cons.prems have p: "exists_checks_fail (Suc (length tws)) w" by simp
  from exists_checks_fail_step(1)[OF p] obtain e fs where f: "select_faults w = Some e # fs"
    by blast
  then have n: "\<not> fst (is_duplicate (tw_tweet_id t) w)" by (simp add: is_duplicate_result)
  have r: "inserts_of (requests (snd ?s)) = inserts_of (requests w) @ [row_of t]"
    using n by (simp add: save_tweet_requests inserts_of_append row_of_def)
  have q: "exists_checks_fail (length tws) (snd ?s)"
    by (rule exists_checks_fail_step(2)[OF p])
  show ?case
    unfolding counts save_all_Cons by (simp only: Cons.IH[OF q] r) simp
qed

lemma save_all_counts:
  "fst (fst (save_all tws (sv, sk) w)) + snd (fst (save_all tws (sv, sk) w))
   = sv + sk + length tws"
proof (induction tws arbitrary: sv sk w)
  case Nil
  then show ?case by simp
next
  case (Cons t tws)
  show ?case unfolding save_all_Cons
    by (cases "fst (save_tweet (tw_tweet_id t) (tw_content t) (tw_author t) (tw_url t) w)")
       (simp_all add: Cons.IH)
qed

text \<open>
  C8: when the existence check raises, \<open>is_duplicate\<close> returns false, logs the error and
  leaves the table alone, so \<open>save_tweet\<close> goes on to send the insert, which saves the
  record when it gets through and the identifier is new. In a run whose existence checks
  all fail, the insert requests sent are exactly the rows of the collected records, one
  for each, in order.
\<close>

theorem unreachable_checks_still_write:
  "(select_faults w = Some e # fs \<longrightarrow>
      \<not> fst (is_duplicate tweet_id w)
      \<and> timeline_tweets (snd (is_duplicate tweet_id w)) = timeline_tweets w
      \<and> last (logged (snd (is_duplicate tweet_id w))) = Error_checking_duplicate tweet_id e)
   \<and> (select_faults w = Some e # fs \<longrightarrow>
        requests (snd (save_tweet tweet_id content author tweet_url w))
        = requests w @ [Select tweet_id,
            Insert \<lparr>row_tweet_id = tweet_id, row_content = content, row_author = author,
                    row_tweet_url = tweet_url\<rparr>])
   \<and> (select_faults w = Some e # fs \<and> tweet_id \<notin> stored_ids w
        \<and> gets_through (insert_faults w) \<longrightarrow>
        fst (save_tweet tweet_id content author tweet_url w))
   \<and> (exists_checks_fail (length tws) w \<longrightarrow>
        inserts_of (requests (snd (save_all tws counts w)))
        = inserts_of (requests w) @ map row_of tws)"
proof (intro conjI impI)
  assume f: "select_faults w = Some e # fs"
  show "\<not> fst (is_duplicate tweet_id w)" by (simp add: is_duplicate_fault[OF f])
  show "timeline_tweets (snd (is_duplicate tweet_id w)) = timeline_tweets w"
    by (simp add: is_duplicate_fault[OF f])
  show "last (logged (snd (is_duplicate tweet_id w))) = Error_checking_duplicate tweet_id e"
    by (simp add: is_duplicate_fault[OF f])
next
  assume f: "select_faults w = Some e # fs"
  then show "requests (snd (save_tweet tweet_id content author tweet_url w))
        = requests w @ [Select tweet_id,
            Insert \<lparr>row_tweet_id = tweet_id, row_content = content, row_author = author,
                    row_tweet_url = tweet_url\<rparr>]"
    by (simp add: save_tweet_requests is_duplicate_result)
next
  assume "select_faults w = Some e # fs \<and> tweet_id \<notin> stored_ids w
        \<and> gets_through (insert_faults w)"
  then show "fst (save_tweet tweet_id content author tweet_url w)"
    by (simp add: save_tweet_result)
next
  assume "exists_checks_fail (length tws) w"
  then show "inserts_of (requests (snd (save_all tws counts w)))
        = inserts_of (requests w) @ map row_of tws"
    by (rule save_all_inserts_when_checks_fail)
qed

theorem unreachable_checks_still_write_witness:
  "select_faults (initial_world\<lparr>select_faults := [Some ''timed out'', Some ''timed out'']\<rparr>)
     = Some ''timed out'' # [Some ''timed out'']
   \<and> \<not> fst (is_duplicate ''1'' (initial_world\<lparr>select_faults := [Some ''timed out'', Some ''timed out'']\<rparr>))
   \<and> ''1'' \<notin> stored_ids (initial_world\<lparr>select_faults := [Some ''timed out'', Some ''timed out'']\<rparr>)
   \<and> gets_through (insert_faults (initial_world\<lparr>select_faults := [Some ''timed out'', Some ''timed out'']\<rparr>))
   \<and> fst (save_tweet ''1'' ''one'' None ''u1''
            (initial_world\<lparr>select_faults := [Some ''timed out'', Some ''timed out'']\<rparr>))
   \<and> exists_checks_fail
        (length [\<lparr>tw_tweet_id = ''1'', tw_content = ''one'', tw_author = None, tw_url = ''u1''\<rparr>,
                 \<lparr>tw_tweet_id = ''2'', tw_content = ''two'', tw_author = None, tw_url = ''u2''\<rparr>])
        (initial_world\<lparr>select_faults := [Some ''timed out'', Some ''timed out'']\<rparr>)
   \<and> inserts_of (requests (snd (save_all
        [\<lparr>tw_tweet_id = ''1'', tw_content = ''one'', tw_author = None, tw_url = ''u1''\<rparr>,
         \<lparr>tw_tweet_id = ''2'', tw_content = ''two'', tw_author = None, tw_url = ''u2''\<rparr>]
        (0, 0) (initial_world\<lparr>select_faults := [Some ''timed out'', Some ''timed out'']\<rparr>))))
      = [\<lparr>row_tweet_id = ''1'', row_content = ''one'', row_author = None, row_tweet_url = ''u1''\<rparr>,
         \<lparr>row_tweet_id = ''2'', row_content = ''two'', row_author = None, row_tweet_url = ''u2''\<rparr>]"
proof -
  let ?w = "initial_world\<lparr>select_faults := [Some ''timed out'', Some ''timed out'']\<rparr>"
  let ?tws = "[\<lparr>tw_tweet_id = ''1'', tw_content = ''one'', tw_author = None, tw_url = ''u1''\<rparr>,
         \<lparr>tw_tweet_id = ''2'', tw_content = ''two'', tw_author = None, tw_url = ''u2''\<rparr>]"
  have h1: "select_faults ?w = Some ''timed out'' # [Some ''timed out'']"
    by (simp add: initial_world_def)
  have h2: "''1'' \<notin> stored_ids ?w" "gets_through (insert_faults ?w)"
    by (simp_all add: initial_world_def stored_ids_def)
  have h3: "exists_checks_fail (length ?tws) ?w"
    by (simp add: initial_world_def exists_checks_fail_def)
  note t = unreachable_checks_still_write[of ?w "''timed out''" "[Some ''timed out'']" "''1''"
      "''one''" None "''u1''" ?tws "(0, 0)"]
  have c1: "\<not> fst (is_duplicate ''1'' ?w)" using t h1 by blast
  have c2: "fst (save_tweet ''1'' ''one'' None ''u1'' ?w)" using t h1 h2 by blast
  have c3: "inserts_of (requests (snd (save_all ?tws (0, 0) ?w)))
        = inserts_of (requests ?w) @ map row_of ?tws"
    using t h3 by blast
  have c3': "inserts_of (requests (snd (save_all ?tws (0, 0) ?w)))
      = [\<lparr>row_tweet_id = ''1'', row_content = ''one'', row_author = None, row_tweet_url = ''u1''\<rparr>,
         \<lparr>row_tweet_id = ''2'', row_content = ''two'', row_author = None, row_tweet_url = ''u2''\<rparr>]"
    unfolding c3 by (simp add: initial_world_def row_of_def)
  show ?thesis
    using h1 h2 h3 c1 c2 c3' by (intro conjI)
qed

text \<open>
  C10: the result of a completed run has \<open>total_collected = saved + skipped_duplicates\<close>,
  the total being the number of collected records. A record whose write fails with an
  error that is not a uniqueness violation adds one to the tally of skipped duplicates,
  while the log records the failure as an error.
\<close>

theorem run_result_tally:
  "(scrape_and_save browser m w = (Inr res, w') \<longrightarrow>
      total_collected res = saved res + skipped_duplicates res
      \<and> total_collected res = length (tweets res))
   \<and> (\<not> (gets_through (select_faults w) \<and> tw_tweet_id t \<in> stored_ids w)
        \<and> insert_faults w = Some e # fs
        \<and> \<not> (py_in ''duplicate'' (py_lower e) \<or> py_in ''unique'' (py_lower e)) \<longrightarrow>
        save_all (t # rest) (sv, sk) w
        = save_all rest (sv, sk + 1)
            (snd (save_tweet (tw_tweet_id t) (tw_content t) (tw_author t) (tw_url t) w))
        \<and> last (logged (snd (save_tweet (tw_tweet_id t) (tw_content t) (tw_author t) (tw_url t) w)))
          = Error_saving_tweet (tw_tweet_id t) e)"
proof (intro conjI impI)
  assume a: "scrape_and_save browser m w = (Inr res, w')"
  then obtain page collected where b: "browser = Inr page"
    and c: "collect_tweets (Some page) m = Inr collected"
    and r: "res = \<lparr>total_collected = length collected,
                   saved = fst (fst (save_all collected (0, 0) w)),
                   skipped_duplicates = snd (fst (save_all collected (0, 0) w)),
                   tweets = collected\<rparr>"
    by (auto simp: scrape_and_save_def split: sum.splits prod.splits)
  show "total_collected res = saved res + skipped_duplicates res"
    using save_all_counts[of collected 0 0 w] by (simp add: r)
  show "total_collected res = length (tweets res)" by (simp add: r)
next
  assume a: "\<not> (gets_through (select_faults w) \<and> tw_tweet_id t \<in> stored_ids w)
        \<and> insert_faults w = Some e # fs
        \<and> \<not> (py_in ''duplicate'' (py_lower e) \<or> py_in ''unique'' (py_lower e))"
  then have n: "\<not> fst (is_duplicate (tw_tweet_id t) w)" by (simp add: is_duplicate_result)
  from a have f: "insert_faults w = Some e # fs" by simp
  note v = save_tweet_write_fault[OF n f, of "tw_content t" "tw_author t" "tw_url t"]
  show "save_all (t # rest) (sv, sk) w
        = save_all rest (sv, sk + 1)
            (snd (save_tweet (tw_tweet_id t) (tw_content t) (tw_author t) (tw_url t) w))"
    unfolding save_all_Cons by (simp add: v)
  show "last (logged (snd (save_tweet (tw_tweet_id t) (tw_content t) (tw_author t) (tw_url t) w)))
          = Error_saving_tweet (tw_tweet_id t) e"
    using a by (simp add: v log_line_def)
qed

theorem run_result_tally_witness:
  "fst (scrape_and_save (Inr (\<lambda>k. [rendered_post ''/a/status/1'' ''one''])) 1
            (initial_world\<lparr>insert_faults := [Some ''Connection reset'']\<rparr>))
      = Inr \<lparr>total_collected = 1, saved = 0, skipped_duplicates = 1,
             tweets = [\<lparr>tw_tweet_id = ''1'', tw_content = ''one'', tw_author = Some ''a'',
                        tw_url = ''https://x.com/a/status/1''\<rparr>]\<rparr>
   \<and> total_collected \<lparr>total_collected = 1, saved = 0, skipped_duplicates = 1,
             tweets = [\<lparr>tw_tweet_id = ''1'', tw_content = ''one'', tw_author = Some ''a'',
                        tw_url = ''https://x.com/a/status/1''\<rparr>]\<rparr>
       = saved \<lparr>total_collected = 1, saved = 0, skipped_duplicates = 1,
             tweets = [\<lparr>tw_tweet_id = ''1'', tw_content = ''one'', tw_author = Some ''a'',
                        tw_url = ''https://x.com/a/status/1''\<rparr>]\<rparr>
         + skipped_duplicates \<lparr>total_collected = 1, saved = 0, skipped_duplicates = 1,
             tweets = [\<lparr>tw_tweet_id = ''1'', tw_content = ''one'', tw_author = Some ''a'',
                        tw_url = ''https://x.com/a/status/1''\<rparr>]\<rparr>
   \<and> insert_faults (initial_world\<lparr>insert_faults := [Some ''Connection reset'']\<rparr>)
       = Some ''Connection reset'' # []
   \<and> \<not> (py_in ''duplicate'' (py_lower ''Connection reset'')
         \<or> py_in ''unique'' (py_lower ''Connection reset''))
   \<and> \<not> (gets_through (select_faults (initial_world\<lparr>insert_faults := [Some ''Connection reset'']\<rparr>))
         \<and> ''1'' \<in> stored_ids (initial_world\<lparr>insert_faults := [Some ''Connection reset'']\<rparr>))
   \<and> save_all [\<lparr>tw_tweet_id = ''1'', tw_content = ''one'', tw_author = Some ''a'',
                 tw_url = ''https://x.com/a/status/1''\<rparr>] (0, 0)
         (initial_world\<lparr>insert_faults := [Some ''Connection reset'']\<rparr>)
       = ((0, 1),
          \<lparr>timeline_tweets = [], select_faults = [], insert_faults = [],
           requests = [Select ''1'',
             Insert \<lparr>row_tweet_id = ''1'', row_content = ''one'', row_author = Some ''a'',
                     row_tweet_url = ''https://x.com/a/status/1''\<rparr>],
           logged = [Error_saving_tweet ''1'' ''Connection reset'']\<rparr>)"
proof -
  let ?w = "initial_world\<lparr>insert_faults := [Some ''Connection reset'']\<rparr>"
  let ?t = "\<lparr>tw_tweet_id = ''1'', tw_content = ''one'', tw_author = Some ''a'',
             tw_url = ''https://x.com/a/status/1''\<rparr>"
  let ?res = "\<lparr>total_collected = 1, saved = 0, skipped_duplicates = 1, tweets = [?t]\<rparr>"
  let ?run = "scrape_and_save (Inr (\<lambda>k. [rendered_post ''/a/status/1'' ''one''])) 1 ?w"
  have e: "fst ?run = Inr ?res" by code_simp
  then have h1: "?run = (Inr ?res, snd ?run)" by (simp add: prod_eq_iff)
  have h2: "\<not> (gets_through (select_faults ?w) \<and> tw_tweet_id ?t \<in> stored_ids ?w)"
    "insert_faults ?w = Some ''Connection reset'' # []"
    "\<not> (py_in ''duplicate'' (py_lower ''Connection reset'')
         \<or> py_in ''unique'' (py_lower ''Connection reset''))"
    by (simp_all add: initial_world_def stored_ids_def py_lower_def)
  note t = run_result_tally[of "Inr (\<lambda>k. [rendered_post ''/a/status/1'' ''one''])" 1 ?w ?res
      "snd ?run" ?t "''Connection reset''" "[]" "[]" 0 0]
  have c1: "total_collected ?res = saved ?res + skipped_duplicates ?res"
    using t h1 by blast
  have c2: "save_all (?t # []) (0, 0) ?w
        = save_all [] (0, 0 + 1)
            (snd (save_tweet (tw_tweet_id ?t) (tw_content ?t) (tw_author ?t) (tw_url ?t) ?w))"
    using t h2 by blast
  have s: "snd (save_tweet ''1'' ''one'' (Some ''a'') ''https://x.com/a/status/1'' ?w)
       = \<lparr>timeline_tweets = [], select_faults = [], insert_faults = [],
           requests = [Select ''1'',
             Insert \<lparr>row_tweet_id = ''1'', row_content = ''one'', row_author = Some ''a'',
                     row_tweet_url = ''https://x.com/a/status/1''\<rparr>],
           logged = [Error_saving_tweet ''1'' ''Connection reset'']\<rparr>"
    by (simp add: initial_world_def save_tweet_def is_duplicate_def table_select_eq_def
        table_insert_def log_line_def Let_def py_lower_def)
  from c2 s have c2': "save_all [?t] (0, 0) ?w
       = ((0, 1),
          \<lparr>timeline_tweets = [], select_faults = [], insert_faults = [],
           requests = [Select ''1'',
             Insert \<lparr>row_tweet_id = ''1'', row_content = ''one'', row_author = Some ''a'',
                     row_tweet_url = ''https://x.com/a/status/1''\<rparr>],
           logged = [Error_saving_tweet ''1'' ''Connection reset'']\<rparr>)"
    by simp
  from h2(1) have h2': "\<not> (gets_through (select_faults ?w) \<and> ''1'' \<in> stored_ids ?w)" by simp
  show ?thesis
    using e c1 h2(2,3) h2' c2' by (intro conjI)
qed

section \<open>Properties of the scheduler\<close>

lemma start_zero_max_runs:
  "timing_fine timing \<Longrightarrow>
   start passes (Some 0) outcome timing self
   = (Interrupted, self\<lparr>run_count := run_count self + passes\<rparr>)"
proof (induction passes arbitrary: self)
  case 0
  then show ?case by simp
next
  case (Suc passes)
  from Suc.prems obtain v where v: "timing (run_count self) = Inr v" "0 \<le> v"
    unfolding timing_fine_def by blast
  show ?case using Suc.IH[OF Suc.prems] v by (simp add: run_once_def)
qed

text \<open>
  C6 at \<open>max_runs = 0\<close>, a value that is set: Python takes 0 as false, so the test that
  ends the loop is never made. While every scheduling step goes through, every pass of
  the loop starts a run and the loop ends only by the interrupt: after three passes three
  runs were started, more than \<open>max_runs\<close>.
\<close>

theorem zero_max_runs_never_completes:
  "timing_fine timing \<Longrightarrow>
   start passes (Some 0) outcome timing (init_scheduler minutes n)
   = (Interrupted, (init_scheduler minutes n)\<lparr>run_count := passes\<rparr>)
   \<and> run_count (snd (start 3 (Some 0) outcome timing (init_scheduler minutes n))) = 3"
  by (simp add: start_zero_max_runs init_scheduler_def)

theorem zero_max_runs_never_completes_witness:
  "timing_fine (\<lambda>k. Inr 600)
   \<and> start 3 (Some 0) (\<lambda>k. True) (\<lambda>k. Inr 600) (init_scheduler 10 10)
      = (Interrupted, \<lparr>base_interval = 600, max_tweets_per_run = 10, run_count = 3\<rparr>)"
proof -
  have h: "timing_fine (\<lambda>k. Inr 600)" by (simp add: timing_fine_def)
  from zero_max_runs_never_completes[OF h, of 3 "\<lambda>k. True" 10 10]
  have "start 3 (Some 0) (\<lambda>k. True) (\<lambda>k. Inr 600) (init_scheduler 10 10)
        = (Interrupted, (init_scheduler 10 10)\<lparr>run_count := 3\<rparr>)" by blast
  then show ?thesis using h by (simp add: init_scheduler_def)
qed

lemma start_run_count_bounded:
  "m \<noteq> 0 \<Longrightarrow> int (run_count self) \<le> max m 0 \<Longrightarrow>
   int (run_count (snd (start passes (Some m) outcome timing self))) \<le> max m 0"
  by (induction passes arbitrary: self) (auto simp: run_once_def split: sum.splits)

lemma start_completes:
  "timing_fine timing \<Longrightarrow> m \<noteq> 0 \<Longrightarrow> int (run_count self) \<le> max m 0 \<Longrightarrow>
   nat m - run_count self < passes \<Longrightarrow>
   start passes (Some m) outcome timing self = (Completed, self\<lparr>run_count := nat (max m 0)\<rparr>)"
proof (induction passes arbitrary: self)
  case 0
  then show ?case by simp
next
  case (Suc passes)
  show ?case
  proof (cases "int (run_count self) \<ge> m")
    case True
    with Suc.prems have "run_count self = nat (max m 0)" by auto
    then show ?thesis using True Suc.prems(2) by simp
  next
    case False
    let ?s = "snd (run_once (outcome (run_count self)) self)"
    from Suc.prems(1) obtain v where v: "timing (run_count self) = Inr v" "0 \<le> v"
      unfolding timing_fine_def by blast
    have r: "run_count ?s = run_count self + 1" by (simp add: run_once_def)
    have "int (run_count ?s) \<le> max m 0" using False r by simp
    moreover have "nat m - run_count ?s < passes" using Suc.prems(4) False r by simp
    ultimately have "start passes (Some m) outcome timing ?s
                     = (Completed, ?s\<lparr>run_count := nat (max m 0)\<rparr>)"
      using Suc.IH[OF Suc.prems(1,2)] by blast
    then show ?thesis using False Suc.prems(2) v by (simp add: run_once_def)
  qed
qed

text \<open>
  A negative interval ends the scheduler after the run, with the ValueError of the sleep:
  here the first interval drawn for a base of \<open>-600\<close> seconds.
\<close>

lemma negative_interval_raises:
  "start 3 None (\<lambda>k. True) (\<lambda>k. Inr (- 480)) (init_scheduler (- 10) 10)
   = (Raised (ValueError ''sleep length must be non-negative''),
      \<lparr>base_interval = - 600, max_tweets_per_run = 10, run_count = 1\<rparr>)"
  by (simp add: numeral_3_eq_3 init_scheduler_def run_once_def)

text \<open>
  X1 (the part of C6 that holds): for every \<open>max_runs\<close> other than 0 the scheduler starts at
  most \<open>max_runs\<close> runs (none when it is negative), whatever the scheduling steps do; and
  when these go through and the loop is given more passes than that, it stops by itself
  with exactly that many runs counted.
\<close>

theorem runs_bounded_by_nonzero_max_runs:
  "m \<noteq> 0 \<Longrightarrow>
   int (run_count (snd (start passes (Some m) outcome timing (init_scheduler minutes n))))
     \<le> max m 0
   \<and> (timing_fine timing \<and> nat m < passes \<longrightarrow>
        start passes (Some m) outcome timing (init_scheduler minutes n)
        = (Completed, (init_scheduler minutes n)\<lparr>run_count := nat (max m 0)\<rparr>))"
  using start_run_count_bounded[of m "init_scheduler minutes n" passes outcome timing]
    start_completes[of timing m "init_scheduler minutes n" passes outcome]
  by (auto simp: init_scheduler_def)

theorem runs_bounded_by_nonzero_max_runs_witness:
  "(2::int) \<noteq> 0 \<and> nat 2 < (5::nat) \<and> timing_fine (\<lambda>k. Inr 600)
   \<and> start 5 (Some 2) (\<lambda>k. True) (\<lambda>k. Inr 600) (init_scheduler 10 10)
      = (Completed, \<lparr>base_interval = 600, max_tweets_per_run = 10, run_count = 2\<rparr>)"
proof -
  have h: "(2::int) \<noteq> 0" "nat 2 < (5::nat)" "timing_fine (\<lambda>k. Inr 600)"
    by (simp_all add: timing_fine_def)
  from runs_bounded_by_nonzero_max_runs[OF h(1), of 5 "\<lambda>k. True" "\<lambda>k. Inr 600" 10 10] h(2,3)
  have "start 5 (Some 2) (\<lambda>k. True) (\<lambda>k. Inr 600) (init_scheduler 10 10)
        = (Completed, (init_scheduler 10 10)\<lparr>run_count := nat (max 2 0)\<rparr>)" by blast
  then show ?thesis using h by (simp add: init_scheduler_def)
qed

end
